theory Spec2Isabelle
  imports Complex_Main "HOL-Library.Multiset" "HOL-Library.List_Lexorder" "HOL-Library.Log_Nat"
begin

section \<open>JavaScript values used by the pages\<close>

text \<open>
  The two pages (\<^verbatim>\<open>EmployeeInventoryPage\<close> and \<^verbatim>\<open>DashboardHomePage\<close>) are
  embedded as pure functions over the data they fetch.

  \<^item> A string is the list of its UTF-16 code units, as integers (\<open>js_string\<close>);
    \<open>js\<close> turns an ASCII literal into such a list.
  \<^item> A \<^verbatim>\<open>number\<close> is an IEEE 754 double: a finite value (a rational), \<^verbatim>\<open>NaN\<close>,
    \<^verbatim>\<open>Infinity\<close> or \<^verbatim>\<open>-Infinity\<close>. Addition and subtraction round the exact result to
    the nearest double, ties to even (\<open>round_double\<close>). The sign of zero is not kept.
  \<^item> \<^verbatim>\<open>T | null | undefined\<close> is \<^typ>\<open>'a option\<close>.
  \<^item> What the platform supplies and the pages only call is a parameter of the model:
    the collation \<^verbatim>\<open>String.prototype.localeCompare\<close>, the Unicode case mappings of
    strings that are not pure ASCII (record \<open>platform\<close>), and the date parser
    \<^verbatim>\<open>dayjs\<close> (\<open>parse\<close>, the instant or \<open>None\<close> for an invalid date).
\<close>

type_synonym js_string = "int list"

definition js :: "string \<Rightarrow> js_string" where
  "js s = map of_char s"

type_synonym collation = "js_string \<Rightarrow> js_string \<Rightarrow> int"

record platform =
  localeCompare :: collation
  upperCase :: "js_string \<Rightarrow> js_string"
  lowerCase :: "js_string \<Rightarrow> js_string"

subsection \<open>Numbers\<close>

datatype number = Fin rat | NaN | PosInf | NegInf

text \<open>Rounding to the nearest integer, ties to the even one.\<close>

definition half_even :: "rat \<Rightarrow> int" where
  "half_even x =
     (let f = \<lfloor>x\<rfloor>; d = x - of_int f
      in if d < 1 / 2 then f else if 1 / 2 < d then f + 1 else if even f then f else f + 1)"

text \<open>For \<open>0 < x\<close>: the exponent \<open>e\<close> with \<open>2 powi e \<le> x < 2 powi (e + 1)\<close>.\<close>

definition ilog2 :: "rat \<Rightarrow> int" where
  "ilog2 x = (let k = bitlen (fst (quotient_of x)) - bitlen (snd (quotient_of x))
              in if 2 powi k \<le> x then k else k - 1)"

text \<open>
  The double nearest to a positive rational \<open>a\<close>: 53 significant bits, the least
  exponent of a significand bit is \<open>-1074\<close> (subnormal numbers), and a result of
  \<open>2 ^ 1024\<close> or more is \<^verbatim>\<open>Infinity\<close>.
\<close>

definition round_magnitude :: "rat \<Rightarrow> number" where
  "round_magnitude a =
     (let q = max (ilog2 a - 52) (- 1074);
          m = half_even (a / 2 powi q)
      in if 971 < q \<or> (q = 971 \<and> m = 9007199254740992) then PosInf
         else Fin (of_int m * 2 powi q))"

fun num_neg :: "number \<Rightarrow> number" where
  "num_neg (Fin a) = Fin (- a)"
| "num_neg NaN = NaN"
| "num_neg PosInf = NegInf"
| "num_neg NegInf = PosInf"

definition round_double :: "rat \<Rightarrow> number" where
  "round_double x =
     (if x = 0 then Fin 0
      else if 0 < x then round_magnitude x
      else num_neg (round_magnitude (- x)))"

text \<open>\<^verbatim>\<open>a + b\<close> and \<^verbatim>\<open>a - b\<close> on numbers.\<close>

fun dadd :: "number \<Rightarrow> number \<Rightarrow> number" where
  "dadd (Fin a) (Fin b) = round_double (a + b)"
| "dadd NaN y = NaN"
| "dadd x NaN = NaN"
| "dadd PosInf NegInf = NaN"
| "dadd NegInf PosInf = NaN"
| "dadd PosInf y = PosInf"
| "dadd x PosInf = PosInf"
| "dadd NegInf y = NegInf"
| "dadd x NegInf = NegInf"

definition dsub :: "number \<Rightarrow> number \<Rightarrow> number" where
  "dsub a b = dadd a (num_neg b)"

text \<open>\<^verbatim>\<open>Number.isFinite(x)\<close>, \<^verbatim>\<open>isNaN(x)\<close>, \<^verbatim>\<open>x > 0\<close> and \<^verbatim>\<open>!x\<close> on a number.\<close>

fun isFinite :: "number \<Rightarrow> bool" where
  "isFinite (Fin q) = True"
| "isFinite NaN = False"
| "isFinite PosInf = False"
| "isFinite NegInf = False"

fun isNaN :: "number \<Rightarrow> bool" where
  "isNaN NaN = True"
| "isNaN (Fin q) = False"
| "isNaN PosInf = False"
| "isNaN NegInf = False"

fun num_gt0 :: "number \<Rightarrow> bool" where
  "num_gt0 (Fin q) = (0 < q)"
| "num_gt0 NaN = False"
| "num_gt0 PosInf = True"
| "num_gt0 NegInf = False"

fun num_falsy :: "number \<Rightarrow> bool" where
  "num_falsy (Fin q) = (q = 0)"
| "num_falsy NaN = True"
| "num_falsy PosInf = False"
| "num_falsy NegInf = False"

text \<open>
  What \<^verbatim>\<open>Array.prototype.sort\<close> makes of the number a comparator returns: its sign,
  and 0 for \<^verbatim>\<open>NaN\<close>.
\<close>

fun comparator_sign :: "number \<Rightarrow> int" where
  "comparator_sign (Fin q) = (if q < 0 then - 1 else if q = 0 then 0 else 1)"
| "comparator_sign NaN = 0"
| "comparator_sign PosInf = 1"
| "comparator_sign NegInf = - 1"

text \<open>\<^verbatim>\<open>Number(x ?? 0)\<close> for \<^verbatim>\<open>x: number | null | undefined\<close>.\<close>

definition Number_or0 :: "number option \<Rightarrow> number" where
  "Number_or0 x = (case x of None \<Rightarrow> Fin 0 | Some n \<Rightarrow> n)"

subsection \<open>Strings\<close>

text \<open>\<^verbatim>\<open>String(x || "")\<close> for \<^verbatim>\<open>x: string | null | undefined\<close>.\<close>

definition String_or_empty :: "js_string option \<Rightarrow> js_string" where
  "String_or_empty x = (case x of None \<Rightarrow> [] | Some s \<Rightarrow> s)"

text \<open>
  \<^verbatim>\<open>toUpperCase\<close> and \<^verbatim>\<open>toLowerCase\<close>. On a string of ASCII code units only the
  letters \<^verbatim>\<open>a\<close> to \<^verbatim>\<open>z\<close> (\<^verbatim>\<open>A\<close> to \<^verbatim>\<open>Z\<close>) change; the mapping of any other
  string is the platform's Unicode case mapping.
\<close>

definition is_ascii :: "js_string \<Rightarrow> bool" where
  "is_ascii s = list_all (\<lambda>c. 0 \<le> c \<and> c < 128) s"

definition ascii_upper :: "int \<Rightarrow> int" where
  "ascii_upper c = (if 97 \<le> c \<and> c \<le> 122 then c - 32 else c)"

definition ascii_lower :: "int \<Rightarrow> int" where
  "ascii_lower c = (if 65 \<le> c \<and> c \<le> 90 then c + 32 else c)"

definition toUpperCase :: "platform \<Rightarrow> js_string \<Rightarrow> js_string" where
  "toUpperCase pf s = (if is_ascii s then map ascii_upper s else upperCase pf s)"

definition toLowerCase :: "platform \<Rightarrow> js_string \<Rightarrow> js_string" where
  "toLowerCase pf s = (if is_ascii s then map ascii_lower s else lowerCase pf s)"

text \<open>
  The white space that \<^verbatim>\<open>trim\<close> and \<^verbatim>\<open>parseInt\<close> strip: the ECMAScript
  \<^verbatim>\<open>WhiteSpace\<close> and \<^verbatim>\<open>LineTerminator\<close> code points (TAB, LF, VT, FF, CR, SP, NBSP,
  U+1680, U+2000 to U+200A, U+2028, U+2029, U+202F, U+205F, U+3000, U+FEFF).
\<close>

definition is_white_space :: "int \<Rightarrow> bool" where
  "is_white_space c \<longleftrightarrow>
     (9 \<le> c \<and> c \<le> 13) \<or> c = 32 \<or> c = 160 \<or> c = 5760 \<or> (8192 \<le> c \<and> c \<le> 8202) \<or>
     c = 8232 \<or> c = 8233 \<or> c = 8239 \<or> c = 8287 \<or> c = 12288 \<or> c = 65279"

definition trim :: "js_string \<Rightarrow> js_string" where
  "trim s = rev (dropWhile is_white_space (rev (dropWhile is_white_space s)))"

text \<open>\<^verbatim>\<open>hay.includes(q)\<close>: \<open>q\<close> occurs in \<open>hay\<close> as a contiguous substring.\<close>

definition str_includes :: "js_string \<Rightarrow> js_string \<Rightarrow> bool" where
  "str_includes hay q = list_ex (\<lambda>i. take (length q) (drop i hay) = q) [0 ..< Suc (length hay)]"

text \<open>
  \<^verbatim>\<open>String(n)\<close> for an integer \<open>n\<close> (the id of an employee record, a database key):
  decimal digits, a leading minus sign.
\<close>

fun string_of_nat :: "nat \<Rightarrow> js_string" where
  "string_of_nat n =
     (if n < 10 then [48 + int n]
      else string_of_nat (n div 10) @ [48 + int (n mod 10)])"

definition string_of_int :: "int \<Rightarrow> js_string" where
  "string_of_int i = (if i < 0 then 45 # string_of_nat (nat (- i)) else string_of_nat (nat i))"

text \<open>
  \<^verbatim>\<open>parseInt(s, 10)\<close>: leading white space is skipped, an optional sign is read, then
  the longest run of decimal digits. \<open>parse_integer\<close> is the integer these denote
  (\<open>None\<close> when there is no digit); \<^verbatim>\<open>parseInt\<close> returns the double nearest to it,
  and \<^verbatim>\<open>NaN\<close> when there is none. (Beyond 20 significant digits the standard allows
  an implementation to read the further digits as zeros; the model rounds the integer
  itself.)
\<close>

definition is_digit :: "int \<Rightarrow> bool" where
  "is_digit c \<longleftrightarrow> 48 \<le> c \<and> c \<le> 57"

definition digits_value :: "js_string \<Rightarrow> int" where
  "digits_value ds = foldl (\<lambda>a c. 10 * a + (c - 48)) 0 ds"

definition parse_integer :: "js_string \<Rightarrow> int option" where
  "parse_integer s =
     (let r = dropWhile is_white_space s;
          neg = (r \<noteq> [] \<and> hd r = 45);
          r' = (if r \<noteq> [] \<and> (hd r = 45 \<or> hd r = 43) then tl r else r);
          ds = takeWhile is_digit r'
      in if ds = [] then None
         else Some (if neg then - digits_value ds else digits_value ds))"

definition parseInt :: "js_string \<Rightarrow> number" where
  "parseInt s = (case parse_integer s of None \<Rightarrow> NaN | Some n \<Rightarrow> round_double (of_int n))"

subsection \<open>Maps and sorting\<close>

text \<open>
  A JavaScript \<^verbatim>\<open>Map\<close> keeps its keys in insertion order; \<^verbatim>\<open>set\<close> on a key that is
  present replaces the value where it stands.
\<close>

fun map_set :: "'k \<Rightarrow> 'v \<Rightarrow> ('k \<times> 'v) list \<Rightarrow> ('k \<times> 'v) list" where
  "map_set k v [] = [(k, v)]"
| "map_set k v (p # ps) = (if fst p = k then (k, v) # ps else p # map_set k v ps)"

definition map_get :: "('k \<times> 'v) list \<Rightarrow> 'k \<Rightarrow> 'v option" where
  "map_get m k = map_of m k"

text \<open>
  \<^verbatim>\<open>Array.prototype.sort(cmp)\<close> is a stable sort: the element \<open>x\<close> is placed before
  the first \<open>y\<close> with \<open>cmp x y \<le> 0\<close>. For a comparator that is a total preorder the
  result of every stable sort is this one; for any other comparator the standard leaves
  the order to the implementation.
\<close>

fun sort_insert :: "('a \<Rightarrow> 'a \<Rightarrow> int) \<Rightarrow> 'a \<Rightarrow> 'a list \<Rightarrow> 'a list" where
  "sort_insert cmp x [] = [x]"
| "sort_insert cmp x (y # ys) = (if cmp x y \<le> 0 then x # y # ys else y # sort_insert cmp x ys)"

fun array_sort :: "('a \<Rightarrow> 'a \<Rightarrow> int) \<Rightarrow> 'a list \<Rightarrow> 'a list" where
  "array_sort cmp [] = []"
| "array_sort cmp (x # xs) = sort_insert cmp x (array_sort cmp xs)"

subsection \<open>Collations\<close>

text \<open>
  What the theorems ask of the collation. \<open>total_preorder\<close>: any two strings are
  comparable and the comparison is transitive. \<open>least_empty\<close>: no string sorts before
  the empty string.
\<close>

definition total_preorder :: "collation \<Rightarrow> bool" where
  "total_preorder lc \<longleftrightarrow>
     (\<forall>a b. 0 < lc a b \<longrightarrow> lc b a \<le> 0) \<and>
     (\<forall>a b c. lc a b \<le> 0 \<longrightarrow> lc b c \<le> 0 \<longrightarrow> lc a c \<le> 0)"

definition least_empty :: "collation \<Rightarrow> bool" where
  "least_empty lc \<longleftrightarrow> (\<forall>a. lc [] a \<le> 0)"

section \<open>The inventory page: \<^verbatim>\<open>load\<close>\<close>

record GeneralTxRow =
  gtx_id :: int
  gtx_item_code :: js_string
  gtx_employee_id :: "js_string option"
  gtx_action :: js_string
  gtx_quantity :: "number option"
  gtx_notes :: "js_string option"
  gtx_created_at :: js_string

text \<open>The value type of the local map \<^verbatim>\<open>byKey\<close>.\<close>

record Allocation =
  employee_id :: js_string
  item_code :: js_string
  qty :: number
  lastIssueAt :: js_string
  lastIssueNote :: js_string

definition alloc_key :: "js_string \<Rightarrow> js_string \<Rightarrow> js_string" where
  "alloc_key employeeId itemCode = employeeId @ js ''__'' @ itemCode"

text \<open>One iteration of \<^verbatim>\<open>for (const t of txs)\<close>; \<^verbatim>\<open>continue\<close> returns the map as it is.\<close>

definition load_step ::
  "platform \<Rightarrow> GeneralTxRow \<Rightarrow> (js_string \<times> Allocation) list \<Rightarrow> (js_string \<times> Allocation) list" where
  "load_step pf t byKey =
     (let action = toUpperCase pf (gtx_action t) in
      if action \<noteq> js ''ISSUE'' \<and> action \<noteq> js ''RETURN'' then byKey
      else
        let employeeId = trim (String_or_empty (gtx_employee_id t));
            itemCode = trim (gtx_item_code t) in
        if employeeId = [] \<or> itemCode = [] then byKey
        else
          (case Number_or0 (gtx_quantity t) of
             Fin q \<Rightarrow>
               if q \<le> 0 then byKey
               else
                 let key = alloc_key employeeId itemCode;
                     prev = (case map_get byKey key of
                               Some p \<Rightarrow> p
                             | None \<Rightarrow> \<lparr>employee_id = employeeId, item_code = itemCode, qty = Fin 0,
                                         lastIssueAt = [], lastIssueNote = []\<rparr>) in
                 if action = js ''ISSUE'' then
                   let prev1 = prev\<lparr>qty := dadd (qty prev) (Fin q)\<rparr>;
                       createdAt = gtx_created_at t in
                   if lastIssueAt prev1 = [] \<or> 0 < localeCompare pf createdAt (lastIssueAt prev1)
                   then map_set key (prev1\<lparr>lastIssueAt := createdAt,
                                           lastIssueNote := String_or_empty (gtx_notes t)\<rparr>) byKey
                   else map_set key prev1 byKey
                 else map_set key (prev\<lparr>qty := dsub (qty prev) (Fin q)\<rparr>) byKey
           | _ \<Rightarrow> byKey))"

definition aggregate :: "platform \<Rightarrow> GeneralTxRow list \<Rightarrow> (js_string \<times> Allocation) list" where
  "aggregate pf txs = fold (load_step pf) txs []"

record Employee2 =
  e_id :: int
  e_serial_no :: "js_string option"
  e_fss_no :: "js_string option"
  e_name :: js_string

record GeneralItem =
  gi_item_code :: js_string
  gi_name :: js_string
  gi_unit_name :: js_string

record GeneralAllocationRow =
  gar_id :: js_string
  gar_employee_id :: js_string
  gar_employee_name :: js_string
  gar_item_code :: js_string
  gar_item_name :: js_string
  gar_unit_name :: js_string
  gar_quantity :: number
  gar_notes :: js_string
  gar_created_at :: js_string

record RestrictedIssuedSerialRow =
  sr_serial_unit_id :: number
  sr_item_code :: js_string
  sr_item_name :: js_string
  sr_category :: js_string
  sr_serial_number :: js_string
  sr_status :: js_string
  sr_created_at :: js_string

record RestrictedIssuedQtyRow =
  qr_item_code :: js_string
  qr_item_name :: js_string
  qr_category :: js_string
  qr_unit_name :: js_string
  qr_quantity_issued :: number

record RestrictedIssuedInventory =
  ri_employee_id :: js_string
  ri_serial_items :: "RestrictedIssuedSerialRow list"
  ri_quantity_items :: "RestrictedIssuedQtyRow list"

record RestrictedTxRow =
  rtx_id :: int
  rtx_item_code :: js_string
  rtx_employee_id :: "js_string option"
  rtx_serial_unit_id :: "number option"
  rtx_action :: js_string
  rtx_quantity :: "number option"
  rtx_notes :: "js_string option"
  rtx_created_at :: js_string

text \<open>\<^verbatim>\<open>String(e.fss_no || e.serial_no || e.id)\<close>: the first non-empty of the three.\<close>

definition holder_id :: "Employee2 \<Rightarrow> js_string" where
  "holder_id e =
     (if String_or_empty (e_fss_no e) \<noteq> [] then String_or_empty (e_fss_no e)
      else if String_or_empty (e_serial_no e) \<noteq> [] then String_or_empty (e_serial_no e)
      else string_of_int (e_id e))"

text \<open>\<^verbatim>\<open>a || b\<close> on strings.\<close>

definition str_or :: "js_string \<Rightarrow> js_string \<Rightarrow> js_string" where
  "str_or a b = (if a \<noteq> [] then a else b)"

definition itemByCode :: "GeneralItem list \<Rightarrow> (js_string \<times> GeneralItem) list" where
  "itemByCode items = fold (\<lambda>it m. map_set (gi_item_code it) it m) items []"

definition empById :: "Employee2 list \<Rightarrow> (js_string \<times> Employee2) list" where
  "empById emps = fold (\<lambda>e m. map_set (holder_id e) e m) emps []"

text \<open>The callback of \<^verbatim>\<open>.map\<close> that builds one row of \<^verbatim>\<open>rowsOut\<close>.\<close>

definition allocation_row ::
  "(js_string \<times> Employee2) list \<Rightarrow> (js_string \<times> GeneralItem) list \<Rightarrow> Allocation \<Rightarrow> GeneralAllocationRow" where
  "allocation_row byId byCode v =
     \<lparr>gar_id = alloc_key (employee_id v) (item_code v),
      gar_employee_id = employee_id v,
      gar_employee_name = (case map_get byId (employee_id v) of Some emp \<Rightarrow> e_name emp | None \<Rightarrow> employee_id v),
      gar_item_code = item_code v,
      gar_item_name = (case map_get byCode (item_code v) of Some item \<Rightarrow> str_or (gi_name item) (item_code v) | None \<Rightarrow> item_code v),
      gar_unit_name = (case map_get byCode (item_code v) of Some item \<Rightarrow> str_or (gi_unit_name item) (js ''unit'') | None \<Rightarrow> js ''unit''),
      gar_quantity = qty v,
      gar_notes = str_or (lastIssueNote v) (js ''-''),
      gar_created_at = lastIssueAt v\<rparr>"

text \<open>
  \<^verbatim>\<open>rowsOut\<close>: the values of \<^verbatim>\<open>byKey\<close> with a quantity greater than zero, one row
  each, sorted by \<^verbatim>\<open>created_at\<close> descending.
\<close>

definition rowsOut ::
  "platform \<Rightarrow> Employee2 list \<Rightarrow> GeneralItem list \<Rightarrow> GeneralTxRow list \<Rightarrow> GeneralAllocationRow list" where
  "rowsOut pf emps items txs =
     array_sort (\<lambda>a b. localeCompare pf (gar_created_at b) (gar_created_at a))
       (map (allocation_row (empById emps) (itemByCode items))
          (filter (\<lambda>v. num_gt0 (qty v)) (map snd (aggregate pf txs))))"

text \<open>
  The state of the page that \<^verbatim>\<open>load\<close> writes, and the notifications raised through
  \<^verbatim>\<open>msg.error\<close>. A response that is not an array is \<open>None\<close>.
\<close>

record PageState =
  loading :: bool
  employees :: "Employee2 list"
  restrictedIssued :: "RestrictedIssuedInventory list"
  generalRows :: "GeneralAllocationRow list"
  restrictedTx :: "RestrictedTxRow list"
  notifications :: "js_string list"

record Responses =
  employeesRes :: "Employee2 list option"
  restrictedRes :: "RestrictedIssuedInventory list option"
  itemsRes :: "GeneralItem list option"
  txRes :: "GeneralTxRow list option"
  restrictedTxRes :: "RestrictedTxRow list option"

datatype js_error = Error js_string | Thrown_value

definition errorMessage :: "js_error \<Rightarrow> js_string \<Rightarrow> js_string" where
  "errorMessage e fallback = (case e of Error m \<Rightarrow> m | Thrown_value \<Rightarrow> fallback)"

definition array_or_empty :: "'a list option \<Rightarrow> 'a list" where
  "array_or_empty x = (case x of Some xs \<Rightarrow> xs | None \<Rightarrow> [])"

text \<open>
  \<^verbatim>\<open>load\<close>. \<^verbatim>\<open>await Promise.all([...])\<close> either yields the five responses or throws
  the error of the fetch that failed; that outcome is the argument \<open>fetched\<close>. The
  \<^verbatim>\<open>catch\<close> block is the \<open>Inl\<close> branch, \<^verbatim>\<open>finally\<close> clears \<^verbatim>\<open>loading\<close>.
\<close>

definition load :: "platform \<Rightarrow> js_error + Responses \<Rightarrow> PageState \<Rightarrow> PageState" where
  "load pf fetched s =
     (let s1 = s\<lparr>loading := True\<rparr>;
          s2 = (case fetched of
                  Inr res \<Rightarrow>
                    let emps = array_or_empty (employeesRes res) in
                    s1\<lparr>employees := emps,
                       restrictedIssued := array_or_empty (restrictedRes res),
                       restrictedTx := array_or_empty (restrictedTxRes res),
                       generalRows := rowsOut pf emps (array_or_empty (itemsRes res)) (array_or_empty (txRes res))\<rparr>
                | Inl e \<Rightarrow>
                    s1\<lparr>notifications := notifications s1 @ [errorMessage e (js ''Failed to load employee inventory'')],
                       employees := [],
                       restrictedIssued := [],
                       generalRows := []\<rparr>)
      in s2\<lparr>loading := False\<rparr>)"

section \<open>The inventory page: \<^verbatim>\<open>byEmployee\<close>\<close>

definition empNameById :: "Employee2 list \<Rightarrow> (js_string \<times> js_string) list" where
  "empNameById emps = fold (\<lambda>e m. map_set (holder_id e) (e_name e) m) emps []"

definition empSerialNoById :: "Employee2 list \<Rightarrow> (js_string \<times> js_string) list" where
  "empSerialNoById emps = fold (\<lambda>e m. map_set (holder_id e) (String_or_empty (e_serial_no e)) m) emps []"

definition restrictedMap :: "RestrictedIssuedInventory list \<Rightarrow> (js_string \<times> RestrictedIssuedInventory) list" where
  "restrictedMap issued = fold (\<lambda>r m. map_set (ri_employee_id r) r m) issued []"

text \<open>\<^verbatim>\<open>if (!prev || createdAt.localeCompare(prev) > 0) m.set(key, createdAt)\<close>.\<close>

definition set_if_later :: "platform \<Rightarrow> 'k \<Rightarrow> js_string \<Rightarrow> ('k \<times> js_string) list \<Rightarrow> ('k \<times> js_string) list" where
  "set_if_later pf key createdAt m =
     (if String_or_empty (map_get m key) = [] \<or> 0 < localeCompare pf createdAt (String_or_empty (map_get m key))
      then map_set key createdAt m else m)"

text \<open>
  One iteration of the loop over \<^verbatim>\<open>restrictedTx\<close>; the state is the pair of maps
  \<^verbatim>\<open>restrictedLastIssueBySerial\<close> and \<^verbatim>\<open>restrictedLastIssueByQtyKey\<close>.
\<close>

definition last_issue_step ::
  "platform \<Rightarrow> RestrictedTxRow \<Rightarrow> (number \<times> js_string) list \<times> (js_string \<times> js_string) list
     \<Rightarrow> (number \<times> js_string) list \<times> (js_string \<times> js_string) list" where
  "last_issue_step pf t maps =
     (let action = toUpperCase pf (rtx_action t) in
      if action \<noteq> js ''ISSUE'' then maps
      else
        let createdAt = rtx_created_at t;
            serialId = Number_or0 (rtx_serial_unit_id t);
            bySerial = (if isFinite serialId \<and> num_gt0 serialId
                        then set_if_later pf serialId createdAt (fst maps) else fst maps);
            employeeId = trim (String_or_empty (rtx_employee_id t));
            itemCode = trim (rtx_item_code t);
            byQtyKey = (if employeeId \<noteq> [] \<and> itemCode \<noteq> [] \<and> num_falsy serialId
                        then set_if_later pf (alloc_key employeeId itemCode) createdAt (snd maps)
                        else snd maps)
        in (bySerial, byQtyKey))"

definition restrictedLastIssueBySerial :: "platform \<Rightarrow> RestrictedTxRow list \<Rightarrow> (number \<times> js_string) list" where
  "restrictedLastIssueBySerial pf rtxs = fst (fold (last_issue_step pf) rtxs ([], []))"

definition restrictedLastIssueByQtyKey :: "platform \<Rightarrow> RestrictedTxRow list \<Rightarrow> (js_string \<times> js_string) list" where
  "restrictedLastIssueByQtyKey pf rtxs = snd (fold (last_issue_step pf) rtxs ([], []))"

text \<open>\<^verbatim>\<open>generalMap\<close>: the rows grouped by holder, each group in the order of the rows.\<close>

definition generalMap :: "GeneralAllocationRow list \<Rightarrow> (js_string \<times> GeneralAllocationRow list) list" where
  "generalMap rows =
     fold (\<lambda>r m. map_set (gar_employee_id r)
                    ((case map_get m (gar_employee_id r) of Some prev \<Rightarrow> prev | None \<Rightarrow> []) @ [r]) m)
       rows []"

text \<open>A JavaScript \<^verbatim>\<open>Set\<close> in insertion order; \<^verbatim>\<open>add\<close> ignores a member.\<close>

definition set_add :: "'a \<Rightarrow> 'a list \<Rightarrow> 'a list" where
  "set_add x xs = (if x \<in> set xs then xs else xs @ [x])"

definition allEmployeeIds ::
  "Employee2 list \<Rightarrow> RestrictedIssuedInventory list \<Rightarrow> GeneralAllocationRow list \<Rightarrow> js_string list" where
  "allEmployeeIds emps issued rows =
     fold (\<lambda>r. set_add (gar_employee_id r)) rows
       (fold (\<lambda>r. set_add (ri_employee_id r)) issued
          (fold (\<lambda>e. set_add (holder_id e)) emps []))"

text \<open>
  \<^verbatim>\<open>inRange\<close>. \<open>start\<close> and \<open>end\<close> of the source are the instants
  \<^verbatim>\<open>dayjs(dateRange[0]).startOf("day")\<close> and \<^verbatim>\<open>dayjs(dateRange[1]).endOf("day")\<close>,
  \<open>None\<close> when the bound is not set.
\<close>

definition inRange :: "(js_string \<Rightarrow> int option) \<Rightarrow> int option \<Rightarrow> int option \<Rightarrow> js_string option \<Rightarrow> bool" where
  "inRange parse start endd ts =
     (if start = None \<and> endd = None then True
      else (case parse (String_or_empty ts) of
              None \<Rightarrow> True
            | Some d \<Rightarrow>
                if (case start of Some s \<Rightarrow> d < s | None \<Rightarrow> False) then False
                else if (case endd of Some e \<Rightarrow> e < d | None \<Rightarrow> False) then False
                else True))"

record HolderGroup =
  g_employee_id :: js_string
  g_employee_name :: js_string
  g_serial_no :: js_string
  g_restricted :: RestrictedIssuedInventory
  g_general :: "GeneralAllocationRow list"
  g_totalCount :: nat

text \<open>The three item lists of one holder, as the \<^verbatim>\<open>.map\<close> callback computes them.\<close>

definition restrictedBase :: "RestrictedIssuedInventory list \<Rightarrow> js_string \<Rightarrow> RestrictedIssuedInventory" where
  "restrictedBase issued eid =
     (case map_get (restrictedMap issued) eid of
        Some r \<Rightarrow> r
      | None \<Rightarrow> \<lparr>ri_employee_id = eid, ri_serial_items = [], ri_quantity_items = []\<rparr>)"

text \<open>\<^verbatim>\<open>mapped || s.created_at\<close>: the date shown for a serialized unit.\<close>

definition serial_created_at :: "platform \<Rightarrow> RestrictedTxRow list \<Rightarrow> RestrictedIssuedSerialRow \<Rightarrow> js_string" where
  "serial_created_at pf rtxs s =
     str_or (String_or_empty (map_get (restrictedLastIssueBySerial pf rtxs) (sr_serial_unit_id s)))
            (sr_created_at s)"

definition serial_items ::
  "platform \<Rightarrow> (js_string \<Rightarrow> int option) \<Rightarrow> RestrictedIssuedInventory list \<Rightarrow> RestrictedTxRow list
     \<Rightarrow> int option \<Rightarrow> int option \<Rightarrow> js_string \<Rightarrow> RestrictedIssuedSerialRow list" where
  "serial_items pf parse issued rtxs start endd eid =
     filter (\<lambda>s. inRange parse start endd (Some (sr_created_at s)))
       (map (\<lambda>s. s\<lparr>sr_created_at := serial_created_at pf rtxs s\<rparr>)
          (ri_serial_items (restrictedBase issued eid)))"

definition qty_items ::
  "platform \<Rightarrow> (js_string \<Rightarrow> int option) \<Rightarrow> RestrictedIssuedInventory list \<Rightarrow> RestrictedTxRow list
     \<Rightarrow> int option \<Rightarrow> int option \<Rightarrow> js_string \<Rightarrow> RestrictedIssuedQtyRow list" where
  "qty_items pf parse issued rtxs start endd eid =
     filter (\<lambda>it.
        if start = None \<and> endd = None then True
        else
          let lastIssueAt = map_get (restrictedLastIssueByQtyKey pf rtxs) (alloc_key eid (qr_item_code it)) in
          if String_or_empty lastIssueAt = [] then False
          else inRange parse start endd lastIssueAt)
       (ri_quantity_items (restrictedBase issued eid))"

definition general ::
  "(js_string \<Rightarrow> int option) \<Rightarrow> GeneralAllocationRow list \<Rightarrow> int option \<Rightarrow> int option \<Rightarrow> js_string
     \<Rightarrow> GeneralAllocationRow list" where
  "general parse rows start endd eid =
     filter (\<lambda>r. inRange parse start endd (Some (gar_created_at r)))
       (case map_get (generalMap rows) eid of Some rs \<Rightarrow> rs | None \<Rightarrow> [])"

definition holder_group ::
  "platform \<Rightarrow> (js_string \<Rightarrow> int option) \<Rightarrow> Employee2 list \<Rightarrow> RestrictedIssuedInventory list
     \<Rightarrow> GeneralAllocationRow list \<Rightarrow> RestrictedTxRow list \<Rightarrow> int option \<Rightarrow> int option \<Rightarrow> js_string
     \<Rightarrow> HolderGroup" where
  "holder_group pf parse emps issued rows rtxs start endd eid =
     (let restricted = (restrictedBase issued eid)
            \<lparr>ri_serial_items := serial_items pf parse issued rtxs start endd eid,
             ri_quantity_items := qty_items pf parse issued rtxs start endd eid\<rparr>;
          gen = general parse rows start endd eid;
          restrictedCount = length (ri_serial_items restricted) + length (ri_quantity_items restricted);
          generalCount = length gen
      in \<lparr>g_employee_id = eid,
          g_employee_name = str_or (String_or_empty (map_get (empNameById emps) eid)) eid,
          g_serial_no = String_or_empty (map_get (empSerialNoById emps) eid),
          g_restricted = restricted,
          g_general = gen,
          g_totalCount = restrictedCount + generalCount\<rparr>)"

text \<open>The search filter: \<open>q\<close> is the trimmed, lower-cased query.\<close>

definition search_matches :: "platform \<Rightarrow> js_string \<Rightarrow> HolderGroup \<Rightarrow> bool" where
  "search_matches pf q g =
     (if q = [] then True
      else if str_includes (toLowerCase pf (g_employee_name g @ js '' '' @ g_employee_id g)) q then True
      else if list_ex (\<lambda>s. str_includes (toLowerCase pf (sr_item_code s @ js '' '' @ sr_item_name s @ js '' '' @
                                           sr_serial_number s @ js '' '' @ sr_status s)) q)
                (ri_serial_items (g_restricted g)) then True
      else if list_ex (\<lambda>it. str_includes (toLowerCase pf (qr_item_code it @ js '' '' @ qr_item_name it @ js '' '' @
                                            qr_unit_name it)) q)
                (ri_quantity_items (g_restricted g)) then True
      else if list_ex (\<lambda>it. str_includes (toLowerCase pf (gar_item_code it @ js '' '' @ gar_item_name it @ js '' '' @
                                            gar_notes it @ js '' '' @ gar_created_at it)) q)
                (g_general g) then True
      else False)"

text \<open>
  The comparator of \<^verbatim>\<open>out.sort\<close>; of the number \<^verbatim>\<open>aNum - bNum\<close> the sort reads the
  sign.
\<close>

definition holder_compare :: "platform \<Rightarrow> HolderGroup \<Rightarrow> HolderGroup \<Rightarrow> int" where
  "holder_compare pf a b =
     (let aNum = parseInt (g_serial_no a);
          bNum = parseInt (g_serial_no b)
      in if \<not> isNaN aNum \<and> \<not> isNaN bNum then comparator_sign (dsub aNum bNum)
         else if \<not> isNaN aNum then - 1
         else if \<not> isNaN bNum then 1
         else localeCompare pf (g_employee_name a) (g_employee_name b))"

definition byEmployee ::
  "platform \<Rightarrow> (js_string \<Rightarrow> int option) \<Rightarrow> Employee2 list \<Rightarrow> RestrictedIssuedInventory list
     \<Rightarrow> GeneralAllocationRow list \<Rightarrow> RestrictedTxRow list \<Rightarrow> js_string \<Rightarrow> int option \<Rightarrow> int option
     \<Rightarrow> HolderGroup list" where
  "byEmployee pf parse emps issued rows rtxs search start endd =
     (let q = toLowerCase pf (trim search) in
      array_sort (holder_compare pf)
        (filter (search_matches pf q)
           (filter (\<lambda>g. if start = None \<and> endd = None then True else 0 < g_totalCount g)
              (map (holder_group pf parse emps issued rows rtxs start endd)
                 (allEmployeeIds emps issued rows)))))"

section \<open>The dashboard page: \<^verbatim>\<open>kpis\<close>\<close>

record PayrollRow =
  pr_employee_id :: js_string
  pr_paid_status :: "js_string option"
  pr_net_pay :: "number option"

record PayrollReportResponse =
  prr_total_net :: "number option"
  prr_rows :: "PayrollRow list option"

text \<open>\<^verbatim>\<open>payrollReport?.rows ?? []\<close>.\<close>

definition payrollRows :: "PayrollReportResponse option \<Rightarrow> PayrollRow list" where
  "payrollRows payrollReport = (case payrollReport of None \<Rightarrow> [] | Some rep \<Rightarrow> array_or_empty (prr_rows rep))"

text \<open>\<^verbatim>\<open>String(r.paid_status ?? "unpaid").toLowerCase()\<close>.\<close>

definition paid_status_lower :: "platform \<Rightarrow> PayrollRow \<Rightarrow> js_string" where
  "paid_status_lower pf r =
     toLowerCase pf (case pr_paid_status r of None \<Rightarrow> js ''unpaid'' | Some s \<Rightarrow> s)"

text \<open>The two \<^verbatim>\<open>reduce\<close> calls.\<close>

definition payrollPaid :: "platform \<Rightarrow> PayrollRow list \<Rightarrow> number" where
  "payrollPaid pf rows =
     foldl (\<lambda>a r. if paid_status_lower pf r \<noteq> js ''paid'' then a else dadd a (Number_or0 (pr_net_pay r)))
       (Fin 0) rows"

definition payrollDue :: "platform \<Rightarrow> PayrollRow list \<Rightarrow> number" where
  "payrollDue pf rows =
     foldl (\<lambda>a r. if paid_status_lower pf r = js ''paid'' then a else dadd a (Number_or0 (pr_net_pay r)))
       (Fin 0) rows"

section \<open>The vocabulary of the statements\<close>

text \<open>
  The rejection rule of the Transaction Normalizer, in the words of the specification: a
  record is kept when its upper-cased action is \<^verbatim>\<open>ISSUE\<close> or \<^verbatim>\<open>RETURN\<close>, holder
  id and item code are non-empty after trimming, and the quantity is a finite number
  greater than zero.
\<close>

definition accepted :: "platform \<Rightarrow> GeneralTxRow \<Rightarrow> bool" where
  "accepted pf t \<longleftrightarrow>
     (toUpperCase pf (gtx_action t) = js ''ISSUE'' \<or> toUpperCase pf (gtx_action t) = js ''RETURN'') \<and>
     trim (String_or_empty (gtx_employee_id t)) \<noteq> [] \<and>
     trim (gtx_item_code t) \<noteq> [] \<and>
     (case gtx_quantity t of Some (Fin q) \<Rightarrow> 0 < q | _ \<Rightarrow> False)"

definition is_issue :: "platform \<Rightarrow> GeneralTxRow \<Rightarrow> bool" where
  "is_issue pf t \<longleftrightarrow> toUpperCase pf (gtx_action t) = js ''ISSUE''"

text \<open>The key, the quantity and the note of a transaction, as the loop reads them.\<close>

definition tx_key :: "GeneralTxRow \<Rightarrow> js_string" where
  "tx_key t = alloc_key (trim (String_or_empty (gtx_employee_id t))) (trim (gtx_item_code t))"

definition tx_qty :: "GeneralTxRow \<Rightarrow> rat" where
  "tx_qty t = (case gtx_quantity t of Some (Fin q) \<Rightarrow> q | _ \<Rightarrow> 0)"

definition tx_note :: "GeneralTxRow \<Rightarrow> js_string" where
  "tx_note t = String_or_empty (gtx_notes t)"

text \<open>The accepted transactions of a key, and the \<^verbatim>\<open>ISSUE\<close> ones among them.\<close>

definition key_txs :: "platform \<Rightarrow> js_string \<Rightarrow> GeneralTxRow list \<Rightarrow> GeneralTxRow list" where
  "key_txs pf k txs = filter (\<lambda>t. accepted pf t \<and> tx_key t = k) txs"

definition key_issues :: "platform \<Rightarrow> js_string \<Rightarrow> GeneralTxRow list \<Rightarrow> GeneralTxRow list" where
  "key_issues pf k txs = filter (is_issue pf) (key_txs pf k txs)"

text \<open>The entry a transaction finds in \<^verbatim>\<open>byKey\<close>, and the entry it leaves.\<close>

definition prev_of :: "GeneralTxRow \<Rightarrow> (js_string \<times> Allocation) list \<Rightarrow> Allocation" where
  "prev_of t byKey =
     (case map_get byKey (tx_key t) of
        Some p \<Rightarrow> p
      | None \<Rightarrow> \<lparr>employee_id = trim (String_or_empty (gtx_employee_id t)),
                  item_code = trim (gtx_item_code t), qty = Fin 0, lastIssueAt = [], lastIssueNote = []\<rparr>)"

definition step_value :: "platform \<Rightarrow> GeneralTxRow \<Rightarrow> Allocation \<Rightarrow> Allocation" where
  "step_value pf t prev =
     (if is_issue pf t then
        (if lastIssueAt prev = [] \<or> 0 < localeCompare pf (gtx_created_at t) (lastIssueAt prev)
         then prev\<lparr>qty := dadd (qty prev) (Fin (tx_qty t)), lastIssueAt := gtx_created_at t,
                   lastIssueNote := tx_note t\<rparr>
         else prev\<lparr>qty := dadd (qty prev) (Fin (tx_qty t))\<rparr>)
      else prev\<lparr>qty := dsub (qty prev) (Fin (tx_qty t))\<rparr>)"

text \<open>
  \<open>latest_issue lc issues v\<close>: the last-issue fields of \<open>v\<close> come from one of the
  transactions \<open>issues\<close>, and no transaction of \<open>issues\<close> has a later \<^verbatim>\<open>created_at\<close>;
  they are empty when there is no such transaction.
\<close>

definition latest_issue :: "collation \<Rightarrow> GeneralTxRow list \<Rightarrow> Allocation \<Rightarrow> bool" where
  "latest_issue lc issues v \<longleftrightarrow>
     (if issues = [] then lastIssueAt v = [] \<and> lastIssueNote v = []
      else (\<exists>t\<in>set issues. gtx_created_at t = lastIssueAt v \<and> tx_note t = lastIssueNote v) \<and>
           (\<forall>t\<in>set issues. lc (gtx_created_at t) (lastIssueAt v) \<le> 0))"

text \<open>The last-issue fields shown for a key; a key with no entry has none.\<close>

definition last_issue :: "platform \<Rightarrow> GeneralTxRow list \<Rightarrow> js_string \<Rightarrow> js_string \<times> js_string" where
  "last_issue pf txs k =
     (case map_of (aggregate pf txs) k of
        None \<Rightarrow> ([], [])
      | Some v \<Rightarrow> (lastIssueAt v, lastIssueNote v))"

text \<open>
  Quantities on which double arithmetic is exact: integers whose magnitudes add up to at
  most \<open>2 ^ 53\<close>. \<open>signed_sum\<close> is the net quantity of a list of transactions in exact
  arithmetic.
\<close>

definition exact_amounts :: "rat list \<Rightarrow> bool" where
  "exact_amounts qs \<longleftrightarrow>
     list_all (\<lambda>q. of_int \<lfloor>q\<rfloor> = q) qs \<and> sum_list (map abs qs) \<le> 9007199254740992"

definition signed_sum :: "platform \<Rightarrow> GeneralTxRow list \<Rightarrow> rat" where
  "signed_sum pf txs = sum_list (map (\<lambda>t. if is_issue pf t then tx_qty t else - tx_qty t) txs)"

text \<open>The finite value of a number (0 for the others).\<close>

definition finite_value :: "number \<Rightarrow> rat" where
  "finite_value x = (case x of Fin q \<Rightarrow> q | _ \<Rightarrow> 0)"

text \<open>
  The quantity of a key as the loop computes it: the quantities of the key's accepted
  transactions added (\<^verbatim>\<open>ISSUE\<close>) or subtracted (\<^verbatim>\<open>RETURN\<close>) in doubles, one after the
  other in arrival order, from 0.
\<close>

definition running_qty :: "platform \<Rightarrow> GeneralTxRow list \<Rightarrow> number" where
  "running_qty pf txs =
     foldl (\<lambda>a t. if is_issue pf t then dadd a (Fin (tx_qty t)) else dsub a (Fin (tx_qty t))) (Fin 0) txs"

text \<open>
  A collation separates a set of strings when it compares no two different strings of
  the set as equal.
\<close>

definition separates :: "collation \<Rightarrow> js_string set \<Rightarrow> bool" where
  "separates lc S \<longleftrightarrow> (\<forall>a\<in>S. \<forall>b\<in>S. lc a b \<le> 0 \<longrightarrow> lc b a \<le> 0 \<longrightarrow> a = b)"

text \<open>A collation agrees with the order of code units on a set of strings.\<close>

definition agrees_with_code_units :: "collation \<Rightarrow> js_string set \<Rightarrow> bool" where
  "agrees_with_code_units lc S \<longleftrightarrow> (\<forall>a\<in>S. \<forall>b\<in>S. (lc a b \<le> 0) = (a \<le> b))"

text \<open>
  The \<^verbatim>\<open>ISSUE\<close> transactions that carry the \<^verbatim>\<open>created_at\<close> \<open>ts\<close> all carry the same
  note.
\<close>

definition one_note :: "GeneralTxRow list \<Rightarrow> js_string \<Rightarrow> bool" where
  "one_note issues ts \<longleftrightarrow>
     (\<forall>t\<in>set issues. \<forall>u\<in>set issues.
        gtx_created_at t = ts \<and> gtx_created_at u = ts \<longrightarrow> tx_note t = tx_note u)"

text \<open>
  The numbers that \<^verbatim>\<open>parseInt\<close> returns when it does not return \<^verbatim>\<open>NaN\<close>: an
  integer or an infinity.
\<close>

definition integral :: "number \<Rightarrow> bool" where
  "integral x \<longleftrightarrow> x = PosInf \<or> x = NegInf \<or> (\<exists>k. x = Fin (of_int k))"

text \<open>Finite numbers on which double addition is exact.\<close>

definition exact_numbers :: "number list \<Rightarrow> bool" where
  "exact_numbers xs \<longleftrightarrow> list_all isFinite xs \<and> exact_amounts (map finite_value xs)"

text \<open>The net pay of a row and its paid flag, in the words of the specification.\<close>

definition net_pay_of :: "PayrollRow \<Rightarrow> number" where
  "net_pay_of r = (case pr_net_pay r of None \<Rightarrow> Fin 0 | Some n \<Rightarrow> n)"

definition is_paid :: "platform \<Rightarrow> PayrollRow \<Rightarrow> bool" where
  "is_paid pf r = (case pr_paid_status r of None \<Rightarrow> False | Some s \<Rightarrow> toLowerCase pf s = js ''paid'')"

text \<open>The sum of a list of numbers as \<^verbatim>\<open>reduce((a, x) => a + x, 0)\<close> computes it.\<close>

definition dsum :: "number list \<Rightarrow> number" where
  "dsum xs = foldl dadd (Fin 0) xs"

text \<open>
  The order of the merged output: two holders whose serial numbers parse are in the
  order of the doubles \<^verbatim>\<open>parseInt\<close> returns, a holder whose serial number parses comes
  before one whose serial number does not, and two holders whose serial numbers do not
  parse are in the order of the collation of their display names.
\<close>

fun num_le :: "number \<Rightarrow> number \<Rightarrow> bool" where
  "num_le (Fin a) (Fin b) = (a \<le> b)"
| "num_le NaN y = False"
| "num_le x NaN = False"
| "num_le NegInf y = True"
| "num_le x PosInf = True"
| "num_le PosInf y = False"
| "num_le x NegInf = False"

definition holder_order :: "platform \<Rightarrow> HolderGroup \<Rightarrow> HolderGroup \<Rightarrow> bool" where
  "holder_order pf a b =
     (if \<not> isNaN (parseInt (g_serial_no a)) \<and> \<not> isNaN (parseInt (g_serial_no b))
      then num_le (parseInt (g_serial_no a)) (parseInt (g_serial_no b))
      else if \<not> isNaN (parseInt (g_serial_no a)) then True
      else if \<not> isNaN (parseInt (g_serial_no b)) then False
      else localeCompare pf (g_employee_name a) (g_employee_name b) \<le> 0)"

text \<open>A timestamp that \<^verbatim>\<open>dayjs\<close> cannot read: the empty string, or an invalid date.\<close>

definition unreadable :: "(js_string \<Rightarrow> int option) \<Rightarrow> js_string \<Rightarrow> bool" where
  "unreadable parse ts \<longleftrightarrow> ts = [] \<or> parse ts = None"

text \<open>The last issue recorded for a restricted quantity item of a holder.\<close>

definition qty_last_issue :: "platform \<Rightarrow> RestrictedTxRow list \<Rightarrow> js_string \<Rightarrow> RestrictedIssuedQtyRow \<Rightarrow> js_string" where
  "qty_last_issue pf rtxs eid it =
     String_or_empty (map_get (restrictedLastIssueByQtyKey pf rtxs) (alloc_key eid (qr_item_code it)))"

text \<open>
  The two \<^verbatim>\<open>.filter\<close> calls of \<^verbatim>\<open>byEmployee\<close> as one predicate: a group is kept
  when no window is set or it has an item, and it matches the query \<open>q\<close>.
\<close>

definition kept :: "platform \<Rightarrow> js_string \<Rightarrow> int option \<Rightarrow> int option \<Rightarrow> HolderGroup \<Rightarrow> bool" where
  "kept pf q start endd g \<longleftrightarrow>
     (start = None \<and> endd = None \<or> 0 < g_totalCount g) \<and> search_matches pf q g"

section \<open>Examples\<close>

text \<open>
  Two collations for the examples. \<open>lex_compare\<close> compares code units. \<open>ranked_compare\<close>
  ranks, as the Unicode collation of the browsers does on ASCII, punctuation before
  digits and digits before letters, and a letter without regard to its case; strings
  that differ in case only are ordered with the lower-case letter first.
\<close>

definition lex_compare :: collation where
  "lex_compare a b = (if a < b then - 1 else if a = b then 0 else 1)"

definition collation_rank :: "int \<Rightarrow> int" where
  "collation_rank c =
     (if is_digit c then 1000 + c
      else if 65 \<le> c \<and> c \<le> 90 then 2000 + c + 32
      else if 97 \<le> c \<and> c \<le> 122 then 2000 + c
      else c)"

definition ranked_compare :: collation where
  "ranked_compare a b =
     (if map collation_rank a < map collation_rank b then - 1
      else if map collation_rank b < map collation_rank a then 1
      else lex_compare b a)"

text \<open>
  The platforms of the examples. Their case mappings for strings that are not pure ASCII
  are never consulted: every string of the examples is ASCII.
\<close>

definition code_unit_platform :: platform where
  "code_unit_platform = \<lparr>localeCompare = lex_compare, upperCase = (\<lambda>s. s), lowerCase = (\<lambda>s. s)\<rparr>"

definition ranked_platform :: platform where
  "ranked_platform = \<lparr>localeCompare = ranked_compare, upperCase = (\<lambda>s. s), lowerCase = (\<lambda>s. s)\<rparr>"

text \<open>
  A date parser that reads \<^verbatim>\<open>YYYY-MM-DD\<close> as the number \<^verbatim>\<open>YYYYMMDD\<close> and is invalid
  on every other string; the number a JSON decimal literal denotes; employees, items,
  transactions and rows as the API returns them; a page state left by an earlier
  successful load.
\<close>

definition iso_day :: "js_string \<Rightarrow> int option" where
  "iso_day s =
     (if length s = 10 \<and> s ! 4 = 45 \<and> s ! 7 = 45 \<and>
         list_all is_digit (take 4 s @ take 2 (drop 5 s) @ drop 8 s)
      then Some (digits_value (take 4 s @ take 2 (drop 5 s) @ drop 8 s))
      else None)"

definition json_number :: "rat \<Rightarrow> number" where
  "json_number x = round_double x"

definition employee :: "int \<Rightarrow> string option \<Rightarrow> string option \<Rightarrow> string \<Rightarrow> Employee2" where
  "employee i serial fss nm =
     \<lparr>e_id = i, e_serial_no = map_option js serial, e_fss_no = map_option js fss, e_name = js nm\<rparr>"

definition ammo_item :: RestrictedIssuedQtyRow where
  "ammo_item = \<lparr>qr_item_code = js ''AMMO'', qr_item_name = js ''Rounds'', qr_category = js ''ammunition'',
                 qr_unit_name = js ''round'', qr_quantity_issued = Fin 30\<rparr>"

definition rifle_item :: RestrictedIssuedSerialRow where
  "rifle_item = \<lparr>sr_serial_unit_id = Fin 7, sr_item_code = js ''RIFLE'', sr_item_name = js ''Rifle'',
                  sr_category = js ''weapon'', sr_serial_number = js ''SN-7'', sr_status = js ''issued'',
                  sr_created_at = []\<rparr>"

definition restricted_issue_tx :: RestrictedTxRow where
  "restricted_issue_tx = \<lparr>rtx_id = 1, rtx_item_code = js ''RIFLE'', rtx_employee_id = Some (js ''E1''),
                           rtx_serial_unit_id = Some (Fin 7), rtx_action = js ''ISSUE'',
                           rtx_quantity = None, rtx_notes = None, rtx_created_at = js ''2024-01-10''\<rparr>"

definition ammo_issue_tx :: RestrictedTxRow where
  "ammo_issue_tx = \<lparr>rtx_id = 2, rtx_item_code = js ''AMMO'', rtx_employee_id = Some (js ''E1''),
                     rtx_serial_unit_id = None, rtx_action = js ''ISSUE'',
                     rtx_quantity = Some (Fin 30), rtx_notes = None, rtx_created_at = js ''yesterday''\<rparr>"

definition stale_state :: PageState where
  "stale_state =
     \<lparr>loading = False,
      employees = [employee 1 (Some ''12'') (Some ''E1'') ''Bob''],
      restrictedIssued = [\<lparr>ri_employee_id = js ''E1'', ri_serial_items = [rifle_item], ri_quantity_items = []\<rparr>],
      generalRows = [],
      restrictedTx = [restricted_issue_tx],
      notifications = []\<rparr>"

definition general_tx :: "string \<Rightarrow> string \<Rightarrow> string \<Rightarrow> number \<Rightarrow> string \<Rightarrow> string \<Rightarrow> GeneralTxRow" where
  "general_tx holder item action quantity note created =
     \<lparr>gtx_id = 1, gtx_item_code = js item, gtx_employee_id = Some (js holder), gtx_action = js action,
      gtx_quantity = Some quantity, gtx_notes = Some (js note), gtx_created_at = js created\<rparr>"

definition general_row :: "string \<Rightarrow> string \<Rightarrow> number \<Rightarrow> string \<Rightarrow> GeneralAllocationRow" where
  "general_row holder item quantity created =
     \<lparr>gar_id = alloc_key (js holder) (js item), gar_employee_id = js holder, gar_employee_name = js holder,
      gar_item_code = js item, gar_item_name = js item, gar_unit_name = js ''unit'', gar_quantity = quantity,
      gar_notes = js ''-'', gar_created_at = js created\<rparr>"

definition payroll_row :: "string option \<Rightarrow> number option \<Rightarrow> PayrollRow" where
  "payroll_row status pay =
     \<lparr>pr_employee_id = js ''E1'', pr_paid_status = map_option js status, pr_net_pay = pay\<rparr>"

text \<open>
  Ledgers of one key: the specification's example (5 issued, 2 returned, 1 issued) and a
  permutation of it; two issues with the same \<^verbatim>\<open>created_at\<close> in both orders; three
  issues of decimal quantities in two orders; two issues of different holders and items
  with the same key string; two issues whose timestamps differ in a colon.
\<close>

definition example_ledger :: "GeneralTxRow list" where
  "example_ledger =
     [general_tx ''H1'' ''X'' ''ISSUE'' (Fin 5) ''a'' ''2024-01-01'',
      general_tx ''H1'' ''X'' ''RETURN'' (Fin 2) ''b'' ''2024-01-05'',
      general_tx ''H1'' ''X'' ''ISSUE'' (Fin 1) ''c'' ''2024-01-10'']"

definition example_ledger_permuted :: "GeneralTxRow list" where
  "example_ledger_permuted =
     [general_tx ''H1'' ''X'' ''ISSUE'' (Fin 1) ''c'' ''2024-01-10'',
      general_tx ''H1'' ''X'' ''ISSUE'' (Fin 5) ''a'' ''2024-01-01'',
      general_tx ''H1'' ''X'' ''RETURN'' (Fin 2) ''b'' ''2024-01-05'']"

definition same_day_ledger :: "GeneralTxRow list" where
  "same_day_ledger =
     [general_tx ''H1'' ''X'' ''ISSUE'' (Fin 5) ''first'' ''2024-01-01'',
      general_tx ''H1'' ''X'' ''ISSUE'' (Fin 1) ''second'' ''2024-01-01'']"

definition decimal_ledger :: "GeneralTxRow list" where
  "decimal_ledger =
     [general_tx ''H1'' ''X'' ''ISSUE'' (json_number (1 / 10)) ''a'' ''2024-01-01'',
      general_tx ''H1'' ''X'' ''ISSUE'' (json_number (2 / 10)) ''b'' ''2024-01-02'',
      general_tx ''H1'' ''X'' ''ISSUE'' (json_number (3 / 10)) ''c'' ''2024-01-03'']"

definition colliding_ledger :: "GeneralTxRow list" where
  "colliding_ledger =
     [general_tx ''A__B'' ''C'' ''ISSUE'' (Fin 1) ''a'' ''2024-01-01'',
      general_tx ''A'' ''B__C'' ''ISSUE'' (Fin 2) ''b'' ''2024-01-02'']"

definition colon_ledger :: "GeneralTxRow list" where
  "colon_ledger =
     [general_tx ''H1'' ''X'' ''ISSUE'' (Fin 5) ''a'' ''2024-01-01T10:00'',
      general_tx ''H1'' ''X'' ''ISSUE'' (Fin 2) ''b'' ''2024-01-01T1000'']"





text \<open>
  Payroll reports: one with whole amounts and paid flags in several spellings, and one
  with the decimal amounts 35000.10 (paid), 42500.25 and 26709.20 (unpaid).
\<close>

definition example_payroll :: "PayrollReportResponse option" where
  "example_payroll =
     Some \<lparr>prr_total_net = None,
           prr_rows = Some [payroll_row (Some ''Paid'') (Some (Fin 100)), payroll_row None (Some (Fin 40)),
                            payroll_row (Some ''unpaid'') None, payroll_row (Some ''PAID'') (Some (Fin 7))]\<rparr>"

definition decimal_payroll :: "PayrollReportResponse option" where
  "decimal_payroll =
     Some \<lparr>prr_total_net = None,
           prr_rows = Some [payroll_row (Some ''paid'') (Some (json_number (3500010 / 100))),
                            payroll_row (Some ''unpaid'') (Some (json_number (4250025 / 100))),
                            payroll_row (Some ''unpaid'') (Some (json_number (2670920 / 100)))]\<rparr>"

text \<open>
  Employee lists: serial numbers that are numeric, absent and not numeric; two serial
  numbers above \<open>2 ^ 53\<close>; two names that differ in case only.
\<close>

definition example_employees :: "Employee2 list" where
  "example_employees =
     [employee 1 (Some ''10'') (Some ''F10'') ''Dan'', employee 2 (Some ''2'') (Some ''F2'') ''Eve'',
      employee 3 None (Some ''FB'') ''bob'', employee 4 (Some ''n/a'') (Some ''FA'') ''Alice'']"

definition long_serial_employees :: "Employee2 list" where
  "long_serial_employees =
     [employee 1 (Some ''9007199254740993'') (Some ''A'') ''Ann'',
      employee 2 (Some ''9007199254740992'') (Some ''B'') ''Ben'']"

definition same_name_employees :: "Employee2 list" where
  "same_name_employees = [employee 1 None (Some ''A'') ''Bob'', employee 2 None (Some ''B'') ''bob'']"

section \<open>Double arithmetic on integers\<close>

lemma half_even_of_int: "half_even (of_int z) = z"
  by (simp add: half_even_def)

lemma half_even_ge1: "1 \<le> y \<Longrightarrow> 1 \<le> half_even y"
proof -
  assume "1 \<le> y"
  then have "1 \<le> \<lfloor>y\<rfloor>" by simp
  then show ?thesis by (simp add: half_even_def Let_def)
qed

lemma bitlen_one: "bitlen 1 = 1"
  by (simp add: bitlen_def floorlog_def)

lemma bitlen_pos: "0 < m \<Longrightarrow> 0 \<le> bitlen m - 1"
  using bitlen_bounds [of m] bitlen_nonneg [of m]
  by (cases "bitlen m = 0") auto

lemma ilog2_of_int:
  assumes "0 < m"
  shows "ilog2 (of_int m) = bitlen m - 1"
proof -
  have b: "2 ^ nat (bitlen m - 1) \<le> m" using bitlen_bounds [OF assms] by simp
  have "(2::rat) powi (bitlen m - 1) = 2 ^ nat (bitlen m - 1)"
    using bitlen_pos [OF assms] by (simp add: power_int_def)
  also have "\<dots> = of_int (2 ^ nat (bitlen m - 1))" by simp
  also have "\<dots> \<le> of_int m" using b by (simp only: of_int_le_iff)
  finally have "(2::rat) powi (bitlen m - 1) \<le> of_int m" .
  then show ?thesis
    by (simp add: ilog2_def quotient_of_int Let_def bitlen_one)
qed

lemma round_magnitude_int:
  assumes m: "0 < m" and le: "m \<le> 9007199254740992"
  shows "round_magnitude (of_int m) = Fin (of_int m)"
proof (cases "m = 9007199254740992")
  case True
  have "round_magnitude 9007199254740992 = Fin 9007199254740992" by code_simp
  with True show ?thesis by simp
next
  case False
  with le have lt: "m < 2 ^ 53" by simp
  define k where "k = bitlen m - 1"
  have k0: "0 \<le> k" unfolding k_def by (rule bitlen_pos [OF m])
  have "(2::int) ^ nat k \<le> m" using bitlen_bounds [OF m] by (simp add: k_def)
  with lt have "(2::int) ^ nat k < 2 ^ 53" by simp
  then have "nat k < 53" by (simp only: power_strict_increasing_iff)
  then have k52: "k \<le> 52" by simp
  define j where "j = nat (52 - k)"
  have q: "max (ilog2 (of_int m) - 52) (- 1074) = - int j"
    using m k0 k52 by (simp add: ilog2_of_int k_def [symmetric] j_def)
  have p: "(2::rat) powi (- int j) = 1 / 2 ^ j"
    by (simp add: power_int_def field_simps)
  have d: "rat_of_int m / (1 / 2 ^ j) = of_int (m * 2 ^ j)"
    by simp
  show ?thesis
    unfolding round_magnitude_def Let_def q p d half_even_of_int
    by simp
qed

lemma round_double_int:
  assumes "\<bar>n\<bar> \<le> 9007199254740992"
  shows "round_double (of_int n) = Fin (of_int n)"
proof -
  consider "n = 0" | "0 < n" | "n < 0" by linarith
  then show ?thesis
  proof cases
    case 1
    then show ?thesis by (simp add: round_double_def)
  next
    case 2
    then show ?thesis using assms round_magnitude_int [of n] by (simp add: round_double_def)
  next
    case 3
    then have pos: "0 < - n" "- n \<le> 9007199254740992" using assms by simp_all
    have "round_magnitude (of_int (- n)) = Fin (of_int (- n))" using round_magnitude_int [OF pos] .
    then show ?thesis using 3 by (simp add: round_double_def)
  qed
qed

lemma round_double_integer:
  assumes i: "of_int \<lfloor>x\<rfloor> = x" and le: "\<bar>x\<bar> \<le> 9007199254740992"
  shows "round_double x = Fin x"
proof -
  define n where "n = \<lfloor>x\<rfloor>"
  have x: "x = of_int n" unfolding n_def using i by (rule sym)
  have "rat_of_int \<bar>n\<bar> \<le> rat_of_int 9007199254740992" using le unfolding x by simp
  then have "\<bar>n\<bar> \<le> 9007199254740992" by (simp only: of_int_le_iff)
  then show ?thesis unfolding x by (rule round_double_int)
qed

text \<open>The double nearest to a positive integer is positive, and an integer or infinite.\<close>

lemma round_magnitude_pos:
  assumes m: "0 < m"
  shows "round_magnitude (of_int m) = PosInf \<or> (\<exists>k. 0 < k \<and> round_magnitude (of_int m) = Fin (of_int k))"
proof (cases "m \<le> 9007199254740992")
  case True
  then show ?thesis using round_magnitude_int [OF m True] m by blast
next
  case False
  then have big: "2 ^ 53 \<le> m" by simp
  define b where "b = bitlen m"
  have "m < 2 ^ nat b" using bitlen_bounds [OF m] by (simp add: b_def)
  with big have "(2::int) ^ 53 < 2 ^ nat b" by linarith
  then have "53 < nat b" by (simp only: power_strict_increasing_iff)
  then have b54: "54 \<le> b" by simp
  define j where "j = nat (b - 53)"
  have q: "max (ilog2 (of_int m) - 52) (- 1074) = int j"
    using m b54 by (simp add: ilog2_of_int b_def [symmetric] j_def)
  have p: "(2::rat) powi (int j) = 2 ^ j" by simp
  define h where "h = half_even (rat_of_int m / 2 ^ j)"
  have "j \<le> nat (b - 1)" using b54 by (simp add: j_def)
  then have "(2::int) ^ j \<le> 2 ^ nat (b - 1)" by (simp only: power_increasing_iff)
  also have "\<dots> \<le> m" using bitlen_bounds [OF m] by (simp add: b_def)
  finally have "(2::int) ^ j \<le> m" .
  then have "rat_of_int (2 ^ j) \<le> rat_of_int m" by (simp only: of_int_le_iff)
  then have "1 \<le> rat_of_int m / 2 ^ j" by simp
  then have h1: "1 \<le> h" unfolding h_def by (rule half_even_ge1)
  have r: "round_magnitude (of_int m) =
     (if 971 < int j \<or> int j = 971 \<and> h = 9007199254740992 then PosInf else Fin (of_int h * 2 ^ j))"
    unfolding round_magnitude_def Let_def q p h_def by simp
  have "rat_of_int h * 2 ^ j = of_int (h * 2 ^ j)" by simp
  moreover have "0 < h * 2 ^ j" using h1 by simp
  ultimately show ?thesis unfolding r by (metis (full_types))
qed

lemma round_double_sign:
  "(0 < d \<longrightarrow> round_double (of_int d) = PosInf \<or> (\<exists>k. 0 < k \<and> round_double (of_int d) = Fin (of_int k))) \<and>
   (d < 0 \<longrightarrow> round_double (of_int d) = NegInf \<or> (\<exists>k. k < 0 \<and> round_double (of_int d) = Fin (of_int k))) \<and>
   (d = 0 \<longrightarrow> round_double (of_int d) = Fin 0)"
proof (intro conjI impI)
  assume "0 < d"
  then show "round_double (of_int d) = PosInf \<or> (\<exists>k. 0 < k \<and> round_double (of_int d) = Fin (of_int k))"
    using round_magnitude_pos [of d] by (simp add: round_double_def)
next
  assume d: "d < 0"
  then have "0 < - d" by simp
  from round_magnitude_pos [OF this]
  consider "round_magnitude (of_int (- d)) = PosInf"
    | k where "0 < k" "round_magnitude (of_int (- d)) = Fin (of_int k)" by blast
  then show "round_double (of_int d) = NegInf \<or> (\<exists>k. k < 0 \<and> round_double (of_int d) = Fin (of_int k))"
  proof cases
    case 1
    then show ?thesis using d by (simp add: round_double_def)
  next
    case 2
    then have "round_double (of_int d) = Fin (of_int (- k))" using d by (simp add: round_double_def)
    moreover have "- k < 0" using 2 by simp
    ultimately show ?thesis by blast
  qed
next
  assume "d = 0"
  then show "round_double (of_int d) = Fin 0" by (simp add: round_double_def)
qed

lemma integral_round_double: "integral (round_double (of_int d))"
  using round_double_sign [of d] unfolding integral_def
  by (metis linorder_cases of_int_0)

lemma integral_parseInt: "isNaN (parseInt s) \<or> integral (parseInt s)"
  by (simp add: parseInt_def integral_round_double split: option.splits)

lemma comparator_sign_dsub:
  assumes a: "integral a" and b: "integral b"
  shows "(comparator_sign (dsub a b) \<le> 0) = num_le a b"
proof -
  have fin: "(comparator_sign (dsub (Fin (of_int i)) (Fin (of_int j))) \<le> 0) = (i \<le> j)" for i j
  proof -
    have e: "dsub (Fin (rat_of_int i)) (Fin (rat_of_int j)) = round_double (of_int (i - j))"
      by (simp add: dsub_def)
    consider "i - j < 0" | "i - j = 0" | "0 < i - j" by linarith
    then show ?thesis
    proof cases
      case 1
      then show ?thesis using round_double_sign [of "i - j"] unfolding e by auto
    next
      case 2
      then show ?thesis using round_double_sign [of "i - j"] unfolding e by auto
    next
      case 3
      then show ?thesis using round_double_sign [of "i - j"] unfolding e by auto
    qed
  qed
  have inf: "dsub PosInf (Fin y) = PosInf" "dsub NegInf (Fin y) = NegInf" "dsub (Fin y) PosInf = NegInf"
    "dsub (Fin y) NegInf = PosInf" "dsub PosInf PosInf = NaN" "dsub NegInf NegInf = NaN"
    "dsub PosInf NegInf = PosInf" "dsub NegInf PosInf = NegInf" for y
    by (simp_all add: dsub_def)
  from a b show ?thesis
    unfolding integral_def by (auto simp: fin inf)
qed

section \<open>Properties of the aggregation in \<^verbatim>\<open>load\<close>\<close>

lemma map_of_map_set: "map_of (map_set k v m) k' = (if k' = k then Some v else map_of m k')"
  by (induction m) auto

lemma map_get_map_of: "map_get m k = map_of m k"
  by (simp add: map_get_def)

lemma load_step_eq:
  "load_step pf t byKey =
     (if accepted pf t then map_set (tx_key t) (step_value pf t (prev_of t byKey)) byKey else byKey)"
  unfolding load_step_def accepted_def step_value_def prev_of_def tx_key_def tx_qty_def tx_note_def
    is_issue_def Number_or0_def Let_def
  by (auto split: option.splits number.splits)

lemma aggregate_snoc: "aggregate pf (txs @ [t]) = load_step pf t (aggregate pf txs)"
  by (simp add: aggregate_def)

lemma aggregate_append: "aggregate pf (xs @ ys) = fold (load_step pf) ys (aggregate pf xs)"
  by (simp add: aggregate_def)

lemma key_txs_snoc:
  "key_txs pf k (txs @ [t]) = (if accepted pf t \<and> tx_key t = k then key_txs pf k txs @ [t] else key_txs pf k txs)"
  by (simp add: key_txs_def)

lemma key_issues_snoc:
  "key_issues pf k (txs @ [t]) =
     (if accepted pf t \<and> tx_key t = k \<and> is_issue pf t then key_issues pf k txs @ [t] else key_issues pf k txs)"
  by (simp add: key_issues_def key_txs_def)

lemma aggregate_None: "(map_of (aggregate pf txs) k = None) = (key_txs pf k txs = [])"
proof (induction txs rule: rev_induct)
  case Nil
  show ?case by (simp add: aggregate_def key_txs_def)
next
  case (snoc t txs)
  then show ?case
    by (simp add: aggregate_snoc load_step_eq key_txs_snoc map_of_map_set)
qed

lemma prev_of_Some: "map_of byKey (tx_key t) = Some p \<Longrightarrow> prev_of t byKey = p"
  by (simp add: prev_of_def map_get_def)

lemma qty_step_value:
  "qty (step_value pf t p) = (if is_issue pf t then dadd (qty p) (Fin (tx_qty t)) else dsub (qty p) (Fin (tx_qty t)))"
  by (simp add: step_value_def)

lemma running_qty_snoc:
  "running_qty pf (txs @ [t]) =
     (if is_issue pf t then dadd (running_qty pf txs) (Fin (tx_qty t)) else dsub (running_qty pf txs) (Fin (tx_qty t)))"
  by (simp add: running_qty_def)

lemma aggregate_qty:
  "map_of (aggregate pf txs) k = Some v \<Longrightarrow> qty v = running_qty pf (key_txs pf k txs)"
proof (induction txs arbitrary: v rule: rev_induct)
  case Nil
  then show ?case by (simp add: aggregate_def)
next
  case (snoc t txs)
  show ?case
  proof (cases "accepted pf t \<and> tx_key t = k")
    case False
    then have "map_of (aggregate pf txs) k = Some v"
      using snoc.prems by (auto simp: aggregate_snoc load_step_eq map_of_map_set split: if_splits)
    then show ?thesis using snoc.IH False by (auto simp: key_txs_snoc)
  next
    case True
    then have v: "v = step_value pf t (prev_of t (aggregate pf txs))"
      using snoc.prems by (simp add: aggregate_snoc load_step_eq map_of_map_set)
    have "qty (prev_of t (aggregate pf txs)) = running_qty pf (key_txs pf k txs)"
    proof (cases "map_of (aggregate pf txs) k")
      case None
      then have "key_txs pf k txs = []" by (simp add: aggregate_None)
      then show ?thesis using None True by (simp add: prev_of_def map_get_def running_qty_def)
    next
      case (Some p)
      then show ?thesis using snoc.IH True by (simp add: prev_of_def map_get_def)
    qed
    then show ?thesis using True v
      by (simp add: key_txs_snoc qty_step_value running_qty_snoc)
  qed
qed

text \<open>Double addition is exact on integers whose magnitudes add up to at most \<open>2 ^ 53\<close>.\<close>

lemma integer_Ints: "(of_int \<lfloor>x\<rfloor> = (x::rat)) = (x \<in> \<int>)"
  by (simp add: Ints_def image_iff)

lemma integer_add: "of_int \<lfloor>a\<rfloor> = (a::rat) \<Longrightarrow> of_int \<lfloor>b\<rfloor> = b \<Longrightarrow> of_int \<lfloor>a + b\<rfloor> = a + b"
  unfolding integer_Ints by (rule Ints_add)

lemma integer_minus: "(of_int \<lfloor>- x\<rfloor> = - x) = (of_int \<lfloor>x\<rfloor> = (x::rat))"
  unfolding integer_Ints by (rule minus_in_Ints_iff)

lemma exact_amounts_snoc:
  "exact_amounts (xs @ [x]) \<Longrightarrow> exact_amounts xs \<and> of_int \<lfloor>x\<rfloor> = x"
proof -
  assume e: "exact_amounts (xs @ [x])"
  then have s: "sum_list (map abs xs) + \<bar>x\<bar> \<le> 9007199254740992"
    and l: "list_all (\<lambda>q. of_int \<lfloor>q\<rfloor> = q) xs" and x: "of_int \<lfloor>x\<rfloor> = x"
    unfolding exact_amounts_def by simp_all
  have "0 \<le> \<bar>x\<bar>" by simp
  with s have "sum_list (map abs xs) \<le> 9007199254740992" by linarith
  with l x show ?thesis unfolding exact_amounts_def by blast
qed

lemma abs_sum_list: "\<bar>sum_list xs\<bar> \<le> sum_list (map abs (xs::rat list))"
  by (induction xs) auto

lemma exact_sum:
  "exact_amounts xs \<Longrightarrow>
     foldl (\<lambda>a x. dadd a (Fin x)) (Fin 0) xs = Fin (sum_list xs) \<and> of_int \<lfloor>sum_list xs\<rfloor> = sum_list xs"
proof (induction xs rule: rev_induct)
  case Nil
  show ?case by simp
next
  case (snoc x xs)
  from exact_amounts_snoc [OF snoc.prems] have e: "exact_amounts xs" and x: "of_int \<lfloor>x\<rfloor> = x"
    by simp_all
  from snoc.IH [OF e] have f: "foldl (\<lambda>a x. dadd a (Fin x)) (Fin 0) xs = Fin (sum_list xs)"
    and i: "of_int \<lfloor>sum_list xs\<rfloor> = sum_list xs" by simp_all
  have i': "of_int \<lfloor>sum_list xs + x\<rfloor> = sum_list xs + x" using integer_add [OF i x] .
  have "\<bar>sum_list (xs @ [x])\<bar> \<le> sum_list (map abs (xs @ [x]))" by (rule abs_sum_list)
  also have "\<dots> \<le> 9007199254740992" using snoc.prems by (simp add: exact_amounts_def)
  finally have b: "\<bar>sum_list xs + x\<bar> \<le> 9007199254740992" by simp
  have "round_double (sum_list xs + x) = Fin (sum_list xs + x)"
    using round_double_integer [OF i' b] .
  then show ?case using f i' by simp
qed

lemma dsub_dadd: "dsub a (Fin x) = dadd a (Fin (- x))"
  by (simp add: dsub_def)

lemma running_qty_fold:
  "running_qty pf txs =
     foldl (\<lambda>a x. dadd a (Fin x)) (Fin 0) (map (\<lambda>t. if is_issue pf t then tx_qty t else - tx_qty t) txs)"
proof -
  have "(\<lambda>a t. if is_issue pf t then dadd a (Fin (tx_qty t)) else dsub a (Fin (tx_qty t)))
      = (\<lambda>a t. dadd a (Fin (if is_issue pf t then tx_qty t else - tx_qty t)))"
    by (intro ext) (simp add: dsub_dadd)
  then show ?thesis by (simp add: running_qty_def foldl_map)
qed

lemma exact_amounts_signed:
  "exact_amounts (map (\<lambda>t. if is_issue pf t then tx_qty t else - tx_qty t) txs) = exact_amounts (map tx_qty txs)"
proof -
  have 1: "map abs (map (\<lambda>t. if is_issue pf t then tx_qty t else - tx_qty t) txs) = map abs (map tx_qty txs)"
    by (induction txs) auto
  have 3: "list_all (\<lambda>q. of_int \<lfloor>q\<rfloor> = q) (map (\<lambda>t. if is_issue pf t then tx_qty t else - tx_qty t) txs)
      = list_all (\<lambda>q. of_int \<lfloor>q\<rfloor> = q) (map tx_qty txs)"
    by (induction txs) (simp_all add: integer_minus del: of_int_floor_cancel)
  show ?thesis unfolding exact_amounts_def 1 3 ..
qed

lemma running_qty_exact:
  "exact_amounts (map tx_qty txs) \<Longrightarrow> running_qty pf txs = Fin (signed_sum pf txs)"
  unfolding running_qty_fold signed_sum_def
  using exact_sum [of "map (\<lambda>t. if is_issue pf t then tx_qty t else - tx_qty t) txs"]
  by (simp only: exact_amounts_signed)

lemma exact_amounts_mset: "mset xs' = mset xs \<Longrightarrow> exact_amounts xs' = exact_amounts xs"
proof -
  assume p: "mset xs' = mset xs"
  have "sum_mset (mset (map abs xs')) = sum_mset (mset (map abs xs))"
    using p by simp
  then have s: "sum_list (map abs xs') = sum_list (map abs xs)"
    by (simp only: sum_mset_sum_list)
  have "set xs' = set xs" using p by (rule mset_eq_setD)
  then show ?thesis by (simp add: exact_amounts_def s list_all_iff)
qed

lemma signed_sum_mset: "mset txs' = mset txs \<Longrightarrow> signed_sum pf txs' = signed_sum pf txs"
proof -
  assume p: "mset txs' = mset txs"
  have "sum_mset (mset (map (\<lambda>t. if is_issue pf t then tx_qty t else - tx_qty t) txs'))
      = sum_mset (mset (map (\<lambda>t. if is_issue pf t then tx_qty t else - tx_qty t) txs))"
    using p by simp
  then show ?thesis unfolding signed_sum_def by (simp only: sum_mset_sum_list)
qed

text \<open>The last-issue fields.\<close>

lemma collation_refl: "total_preorder lc \<Longrightarrow> lc a a \<le> 0"
  unfolding total_preorder_def by (metis not_le)

lemma collation_trans: "total_preorder lc \<Longrightarrow> lc a b \<le> 0 \<Longrightarrow> lc b c \<le> 0 \<Longrightarrow> lc a c \<le> 0"
  unfolding total_preorder_def by blast

lemma collation_total: "total_preorder lc \<Longrightarrow> 0 < lc a b \<Longrightarrow> lc b a \<le> 0"
  unfolding total_preorder_def by blast

lemma collation_least: "least_empty lc \<Longrightarrow> lc [] a \<le> 0"
  unfolding least_empty_def by blast

lemma latest_issue_return:
  "\<not> is_issue pf t \<Longrightarrow> latest_issue lc issues p \<Longrightarrow> latest_issue lc issues (step_value pf t p)"
  by (simp add: latest_issue_def step_value_def)

lemma latest_issue_issue:
  assumes tp: "total_preorder (localeCompare pf)" and le: "least_empty (localeCompare pf)"
    and t: "is_issue pf t" and p: "latest_issue (localeCompare pf) issues p"
  shows "latest_issue (localeCompare pf) (issues @ [t]) (step_value pf t p)"
proof (cases "lastIssueAt p = [] \<or> 0 < localeCompare pf (gtx_created_at t) (lastIssueAt p)")
  case True
  have below: "localeCompare pf (gtx_created_at u) (gtx_created_at t) \<le> 0" if u: "u \<in> set issues" for u
  proof -
    from u have ne: "issues \<noteq> []" by auto
    with p u have le1: "localeCompare pf (gtx_created_at u) (lastIssueAt p) \<le> 0"
      by (simp add: latest_issue_def)
    have "localeCompare pf (lastIssueAt p) (gtx_created_at t) \<le> 0"
      using True collation_least [OF le] collation_total [OF tp] by metis
    with le1 show ?thesis using collation_trans [OF tp] by blast
  qed
  have v: "step_value pf t p
             = p\<lparr>qty := dadd (qty p) (Fin (tx_qty t)), lastIssueAt := gtx_created_at t, lastIssueNote := tx_note t\<rparr>"
    using True t by (simp add: step_value_def)
  show ?thesis
    unfolding v latest_issue_def using below collation_refl [OF tp] by auto
next
  case False
  then have at: "lastIssueAt p \<noteq> []" and le1: "localeCompare pf (gtx_created_at t) (lastIssueAt p) \<le> 0"
    by auto
  from at p have ne: "issues \<noteq> []"
    by (auto simp: latest_issue_def split: if_splits)
  have v: "step_value pf t p = p\<lparr>qty := dadd (qty p) (Fin (tx_qty t))\<rparr>"
    using False t by (simp add: step_value_def)
  show ?thesis
    unfolding v latest_issue_def using p ne le1 by (auto simp: latest_issue_def)
qed

lemma latest_issue_prev_of:
  assumes "\<And>v. map_of (aggregate pf txs) (tx_key t) = Some v \<Longrightarrow> latest_issue lc (key_issues pf (tx_key t) txs) v"
  shows "latest_issue lc (key_issues pf (tx_key t) txs) (prev_of t (aggregate pf txs))"
proof (cases "map_of (aggregate pf txs) (tx_key t)")
  case None
  then have "key_txs pf (tx_key t) txs = []" by (simp add: aggregate_None)
  then have "key_issues pf (tx_key t) txs = []" by (simp add: key_issues_def)
  then show ?thesis using None by (simp add: prev_of_def map_get_def latest_issue_def)
next
  case (Some p)
  then show ?thesis using assms by (simp add: prev_of_def map_get_def)
qed

lemma aggregate_latest_issue:
  assumes tp: "total_preorder (localeCompare pf)" and le: "least_empty (localeCompare pf)"
  shows "map_of (aggregate pf txs) k = Some v \<Longrightarrow> latest_issue (localeCompare pf) (key_issues pf k txs) v"
proof (induction txs arbitrary: v rule: rev_induct)
  case Nil
  then show ?case by (simp add: aggregate_def)
next
  case (snoc t txs)
  show ?case
  proof (cases "accepted pf t \<and> tx_key t = k")
    case False
    then have "map_of (aggregate pf txs) k = Some v"
      using snoc.prems by (auto simp: aggregate_snoc load_step_eq map_of_map_set split: if_splits)
    then show ?thesis using snoc.IH False by (auto simp: key_issues_snoc)
  next
    case True
    then have v: "v = step_value pf t (prev_of t (aggregate pf txs))"
      using snoc.prems by (simp add: aggregate_snoc load_step_eq map_of_map_set)
    have p: "latest_issue (localeCompare pf) (key_issues pf k txs) (prev_of t (aggregate pf txs))"
      using latest_issue_prev_of [of pf txs t "localeCompare pf"] snoc.IH True by simp
    show ?thesis
    proof (cases "is_issue pf t")
      case True
      with \<open>accepted pf t \<and> tx_key t = k\<close> show ?thesis
        unfolding v using latest_issue_issue [OF tp le True p] by (simp add: key_issues_snoc)
    next
      case False
      with \<open>accepted pf t \<and> tx_key t = k\<close> show ?thesis
        unfolding v using latest_issue_return [OF False p] by (simp add: key_issues_snoc)
    qed
  qed
qed

lemma lex_compare_le0: "(lex_compare a b \<le> 0) = (a \<le> b)"
  by (auto simp: lex_compare_def)

lemma lex_compare_gt0: "(0 < lex_compare a b) = (b < a)"
  by (auto simp: lex_compare_def)

lemma total_preorder_lex_compare: "total_preorder lex_compare"
  unfolding total_preorder_def lex_compare_le0 lex_compare_gt0 by auto

lemma least_empty_lex_compare: "least_empty lex_compare"
proof -
  have "([]::js_string) \<le> a" for a by (cases a) simp_all
  then show ?thesis unfolding least_empty_def lex_compare_le0 by simp
qed

lemma separates_lex_compare: "separates lex_compare S"
  unfolding separates_def lex_compare_le0 by auto

lemma ranked_compare_le0:
  "(ranked_compare a b \<le> 0) = (map collation_rank a < map collation_rank b \<or> map collation_rank a = map collation_rank b \<and> b \<le> a)"
  by (auto simp: ranked_compare_def lex_compare_def)

lemma ranked_compare_gt0:
  "(0 < ranked_compare a b) = (map collation_rank b < map collation_rank a \<or> map collation_rank a = map collation_rank b \<and> a < b)"
  by (auto simp: ranked_compare_def lex_compare_def)

lemma total_preorder_ranked_compare: "total_preorder ranked_compare"
  unfolding total_preorder_def ranked_compare_le0 ranked_compare_gt0 by auto

lemma least_empty_ranked_compare: "least_empty ranked_compare"
proof -
  have "a \<le> []  \<longleftrightarrow> a = []" for a :: js_string by (cases a) simp_all
  moreover have "[] < b \<or> b = []" for b :: "int list" by (cases b) simp_all
  ultimately show ?thesis unfolding least_empty_def ranked_compare_le0 by (metis map_is_Nil_conv)
qed

lemma localeCompare_code_unit: "localeCompare code_unit_platform = lex_compare"
  by (simp add: code_unit_platform_def)

lemma localeCompare_ranked: "localeCompare ranked_platform = ranked_compare"
  by (simp add: ranked_platform_def)

lemma last_issue_snoc:
  "last_issue pf (txs @ [t]) k =
     (if accepted pf t \<and> tx_key t = k \<and> is_issue pf t then
        (if fst (last_issue pf txs k) = [] \<or> 0 < localeCompare pf (gtx_created_at t) (fst (last_issue pf txs k))
         then (gtx_created_at t, tx_note t) else last_issue pf txs k)
      else last_issue pf txs k)"
  unfolding last_issue_def aggregate_snoc load_step_eq
  by (auto simp: map_of_map_set step_value_def prev_of_def map_get_def split: option.splits)

lemma last_issue_without_returns:
  "last_issue pf (filter (\<lambda>t. toUpperCase pf (gtx_action t) \<noteq> js ''RETURN'') txs) k = last_issue pf txs k"
proof (induction txs rule: rev_induct)
  case Nil
  show ?case by simp
next
  case (snoc t txs)
  show ?case
  proof (cases "toUpperCase pf (gtx_action t) = js ''RETURN''")
    case True
    have "js ''RETURN'' \<noteq> js ''ISSUE''" by (simp add: js_def)
    with True have "\<not> is_issue pf t" by (simp add: is_issue_def)
    then show ?thesis using True snoc.IH by (simp add: last_issue_snoc)
  next
    case False
    then show ?thesis using snoc.IH by (simp add: last_issue_snoc)
  qed
qed

lemma mset_key_txs: "mset txs' = mset txs \<Longrightarrow> mset (key_txs pf k txs') = mset (key_txs pf k txs)"
  unfolding key_txs_def mset_filter by simp

lemma mset_key_issues: "mset txs' = mset txs \<Longrightarrow> mset (key_issues pf k txs') = mset (key_issues pf k txs)"
  unfolding key_issues_def key_txs_def mset_filter by simp

lemma latest_issue_unique:
  assumes sep: "separates lc (gtx_created_at ` set issues)"
    and v: "latest_issue lc issues v" and v': "latest_issue lc issues' v'"
    and s: "set issues' = set issues"
  shows "lastIssueAt v' = lastIssueAt v"
proof (cases "issues = []")
  case True
  with s have "issues' = []" by simp
  with True v v' show ?thesis by (simp add: latest_issue_def)
next
  case False
  with s have ne: "issues' \<noteq> []" by auto
  from v False obtain t where t: "t \<in> set issues" "gtx_created_at t = lastIssueAt v"
    and mx: "\<forall>u\<in>set issues. lc (gtx_created_at u) (lastIssueAt v) \<le> 0"
    by (auto simp: latest_issue_def)
  from v' ne obtain t' where t': "t' \<in> set issues'" "gtx_created_at t' = lastIssueAt v'"
    and mx': "\<forall>u\<in>set issues'. lc (gtx_created_at u) (lastIssueAt v') \<le> 0"
    by (auto simp: latest_issue_def)
  from t' s have in': "t' \<in> set issues" by simp
  with mx have "lc (gtx_created_at t') (lastIssueAt v) \<le> 0" by (rule bspec)
  then have 1: "lc (lastIssueAt v') (lastIssueAt v) \<le> 0" using t' by simp
  from t s have "t \<in> set issues'" by simp
  with mx' have "lc (gtx_created_at t) (lastIssueAt v') \<le> 0" by (rule bspec)
  then have 2: "lc (lastIssueAt v) (lastIssueAt v') \<le> 0" using t by simp
  have a: "lastIssueAt v' \<in> gtx_created_at ` set issues" using in' t'(2) by (rule rev_image_eqI [OF _ sym])
  have b: "lastIssueAt v \<in> gtx_created_at ` set issues" using t(1) t(2) by (rule rev_image_eqI [OF _ sym])
  from sep a b 1 2 show ?thesis unfolding separates_def by blast
qed

lemma latest_issue_note:
  assumes v: "latest_issue lc issues v" and v': "latest_issue lc issues' v'"
    and s: "set issues' = set issues" and at: "lastIssueAt v' = lastIssueAt v"
    and ties: "one_note issues (lastIssueAt v)"
  shows "lastIssueNote v' = lastIssueNote v"
proof (cases "issues = []")
  case True
  with s have "issues' = []" by simp
  with True v v' show ?thesis by (simp add: latest_issue_def)
next
  case False
  with s have ne: "issues' \<noteq> []" by auto
  from v False obtain t where t: "t \<in> set issues" "gtx_created_at t = lastIssueAt v" "tx_note t = lastIssueNote v"
    by (auto simp: latest_issue_def)
  from v' ne obtain t' where t': "t' \<in> set issues'" "gtx_created_at t' = lastIssueAt v'" "tx_note t' = lastIssueNote v'"
    by (auto simp: latest_issue_def)
  from t' s have in': "t' \<in> set issues" by simp
  from t' at have at': "gtx_created_at t' = lastIssueAt v" by simp
  from ties in' t(1) at' t(2) have "tx_note t' = tx_note t" unfolding one_note_def by blast
  with t t' show ?thesis by simp
qed

text \<open>
  Claim C1, as amended. Let \<^verbatim>\<open>localeCompare\<close> be a total preorder under which the empty
  string is least, and let \<open>txs'\<close> be a permutation of \<open>txs\<close>. The aggregation has an
  entry for the same keys. For a key \<open>k\<close> with the entries \<open>v\<close> (from \<open>txs\<close>) and \<open>v'\<close>
  (from \<open>txs'\<close>):
  \<^item> when the quantities of the key's accepted transactions are integers whose
    magnitudes add up to at most \<open>2 ^ 53\<close>, the net quantity is the exact signed sum
    and the same in both orders (the loop adds doubles in arrival order, and double
    addition is not associative otherwise);
  \<^item> when \<^verbatim>\<open>localeCompare\<close> compares no two different \<^verbatim>\<open>created_at\<close> of the key's
    accepted \<^verbatim>\<open>ISSUE\<close> transactions as equal, \<^verbatim>\<open>lastIssueAt\<close> is the same, and
    \<^verbatim>\<open>lastIssueNote\<close> is the same provided the \<^verbatim>\<open>ISSUE\<close> transactions that carry this
    \<^verbatim>\<open>created_at\<close> all carry the same note (the strict comparison keeps the note of the
    one processed first).
  The statement is about the entry of a key string; the \<^verbatim>\<open>employee_id\<close> and
  \<^verbatim>\<open>item_code\<close> stored in it are those of the first accepted transaction of the key.
\<close>

theorem aggregate_order_independent:
  assumes tp: "total_preorder (localeCompare pf)" and le: "least_empty (localeCompare pf)"
    and perm: "mset txs' = mset txs"
  shows "(map_of (aggregate pf txs') k = None) = (map_of (aggregate pf txs) k = None) \<and>
         (\<forall>v v'. map_of (aggregate pf txs) k = Some v \<longrightarrow> map_of (aggregate pf txs') k = Some v' \<longrightarrow>
            (exact_amounts (map tx_qty (key_txs pf k txs)) \<longrightarrow>
               qty v = Fin (signed_sum pf (key_txs pf k txs)) \<and> qty v' = qty v) \<and>
            (separates (localeCompare pf) (gtx_created_at ` set (key_issues pf k txs)) \<longrightarrow>
               lastIssueAt v' = lastIssueAt v \<and>
               (one_note (key_issues pf k txs) (lastIssueAt v) \<longrightarrow> lastIssueNote v' = lastIssueNote v)))"
proof (intro conjI allI impI)
  have "(mset (key_txs pf k txs') = {#}) = (mset (key_txs pf k txs) = {#})"
    using mset_key_txs [OF perm, of pf k] by simp
  then have "(key_txs pf k txs' = []) = (key_txs pf k txs = [])"
    by simp
  then show "(map_of (aggregate pf txs') k = None) = (map_of (aggregate pf txs) k = None)"
    by (simp add: aggregate_None)
next
  fix v v'
  assume v: "map_of (aggregate pf txs) k = Some v" and v': "map_of (aggregate pf txs') k = Some v'"
    and ex: "exact_amounts (map tx_qty (key_txs pf k txs))"
  have m: "mset (map tx_qty (key_txs pf k txs')) = mset (map tx_qty (key_txs pf k txs))"
    using mset_key_txs [OF perm, of pf k] by simp
  have ex': "exact_amounts (map tx_qty (key_txs pf k txs'))"
    using exact_amounts_mset [OF m] ex by simp
  show q: "qty v = Fin (signed_sum pf (key_txs pf k txs))"
    using aggregate_qty [OF v] running_qty_exact [OF ex] by simp
  have "qty v' = Fin (signed_sum pf (key_txs pf k txs'))"
    using aggregate_qty [OF v'] running_qty_exact [OF ex'] by simp
  also have "\<dots> = Fin (signed_sum pf (key_txs pf k txs))"
    using signed_sum_mset [OF mset_key_txs [OF perm, of pf k]] by simp
  finally show "qty v' = qty v" using q by simp
next
  fix v v'
  assume v: "map_of (aggregate pf txs) k = Some v" and v': "map_of (aggregate pf txs') k = Some v'"
    and sep: "separates (localeCompare pf) (gtx_created_at ` set (key_issues pf k txs))"
  have s: "set (key_issues pf k txs') = set (key_issues pf k txs)"
    using mset_key_issues [OF perm, of pf k] by (rule mset_eq_setD)
  show at: "lastIssueAt v' = lastIssueAt v"
    using latest_issue_unique [OF sep aggregate_latest_issue [OF tp le v] aggregate_latest_issue [OF tp le v'] s] .
  assume "one_note (key_issues pf k txs) (lastIssueAt v)"
  then show "lastIssueNote v' = lastIssueNote v"
    using latest_issue_note [OF aggregate_latest_issue [OF tp le v] aggregate_latest_issue [OF tp le v'] s at]
    by blast
qed

text \<open>
  The specification's example (5 issued, 2 returned, 1 issued) and a permutation of it,
  under the comparison by code units.
\<close>

theorem aggregate_order_independent_witness:
  "total_preorder (localeCompare code_unit_platform) \<and>
   least_empty (localeCompare code_unit_platform) \<and>
   mset example_ledger_permuted = mset example_ledger \<and>
   map_of (aggregate code_unit_platform example_ledger) (js ''H1__X'')
     = Some \<lparr>employee_id = js ''H1'', item_code = js ''X'', qty = Fin 4,
              lastIssueAt = js ''2024-01-10'', lastIssueNote = js ''c''\<rparr> \<and>
   exact_amounts (map tx_qty (key_txs code_unit_platform (js ''H1__X'') example_ledger)) \<and>
   signed_sum code_unit_platform (key_txs code_unit_platform (js ''H1__X'') example_ledger) = 4 \<and>
   separates (localeCompare code_unit_platform)
     (gtx_created_at ` set (key_issues code_unit_platform (js ''H1__X'') example_ledger)) \<and>
   one_note (key_issues code_unit_platform (js ''H1__X'') example_ledger) (js ''2024-01-10'') \<and>
   map_of (aggregate code_unit_platform example_ledger_permuted) (js ''H1__X'') \<noteq> None \<and>
   qty (the (map_of (aggregate code_unit_platform example_ledger_permuted) (js ''H1__X''))) = Fin 4 \<and>
   lastIssueAt (the (map_of (aggregate code_unit_platform example_ledger_permuted) (js ''H1__X'')))
     = js ''2024-01-10'' \<and>
   lastIssueNote (the (map_of (aggregate code_unit_platform example_ledger_permuted) (js ''H1__X'')))
     = js ''c''"
proof -
  let ?pf = code_unit_platform
  let ?k = "js ''H1__X''"
  let ?A = "\<lparr>employee_id = js ''H1'', item_code = js ''X'', qty = Fin 4,
              lastIssueAt = js ''2024-01-10'', lastIssueNote = js ''c''\<rparr>"
  have tp: "total_preorder (localeCompare ?pf)"
    unfolding localeCompare_code_unit by (rule total_preorder_lex_compare)
  have le: "least_empty (localeCompare ?pf)"
    unfolding localeCompare_code_unit by (rule least_empty_lex_compare)
  have perm: "mset example_ledger_permuted = mset example_ledger"
    by (simp add: example_ledger_def example_ledger_permuted_def add_mset_commute)
  have val: "map_of (aggregate ?pf example_ledger) ?k = Some ?A"
    by code_simp
  have ex: "exact_amounts (map tx_qty (key_txs ?pf ?k example_ledger))"
    by code_simp
  have sum: "signed_sum ?pf (key_txs ?pf ?k example_ledger) = 4"
    by code_simp
  have sep: "separates (localeCompare ?pf) (gtx_created_at ` set (key_issues ?pf ?k example_ledger))"
    unfolding localeCompare_code_unit by (rule separates_lex_compare)
  have issues: "key_issues ?pf ?k example_ledger
     = [general_tx ''H1'' ''X'' ''ISSUE'' (Fin 5) ''a'' ''2024-01-01'',
        general_tx ''H1'' ''X'' ''ISSUE'' (Fin 1) ''c'' ''2024-01-10'']"
    by code_simp
  have d: "js ''2024-01-01'' \<noteq> js ''2024-01-10''"
    by code_simp
  have ties: "one_note (key_issues ?pf ?k example_ledger) (js ''2024-01-10'')"
    unfolding issues one_note_def using d by (simp add: general_tx_def)
  then have ties': "one_note (key_issues ?pf ?k example_ledger) (lastIssueAt ?A)"
    by simp
  note th = aggregate_order_independent [OF tp le perm, of ?k]
  from th val have some: "map_of (aggregate ?pf example_ledger_permuted) ?k \<noteq> None"
    by simp
  then obtain v' where v': "map_of (aggregate ?pf example_ledger_permuted) ?k = Some v'"
    by blast
  from th val v' ex sep ties'
  have "qty v' = qty ?A \<and> lastIssueAt v' = lastIssueAt ?A \<and> lastIssueNote v' = lastIssueNote ?A"
    by blast
  then have "qty v' = Fin 4 \<and> lastIssueAt v' = js ''2024-01-10'' \<and> lastIssueNote v' = js ''c''"
    by simp
  then show ?thesis
    using tp le perm val ex sum sep ties some v' by simp
qed

text \<open>
  Three counterexamples to the claim as stated, under the comparison by code units. Two
  \<^verbatim>\<open>ISSUE\<close> transactions of one key with the same \<^verbatim>\<open>created_at\<close> and different notes:
  the note kept is the note of the transaction processed first. Three \<^verbatim>\<open>ISSUE\<close>
  transactions with the quantities 0.1, 0.2 and 0.3: processed in this order the net
  quantity is the double 0.6000000000000001, in the reverse order it is the double 0.6.
  And holder \<^verbatim>\<open>A__B\<close> with item \<^verbatim>\<open>C\<close>, holder \<^verbatim>\<open>A\<close> with item \<^verbatim>\<open>B__C\<close>: the two share
  the key string \<^verbatim>\<open>A__B__C\<close> and one entry, which names the holder and the item of the
  transaction processed first.
\<close>

theorem aggregate_order_counterexample:
  "mset (rev same_day_ledger) = mset same_day_ledger \<and>
   map_of (aggregate code_unit_platform same_day_ledger) (js ''H1__X'')
     = Some \<lparr>employee_id = js ''H1'', item_code = js ''X'', qty = Fin 6,
              lastIssueAt = js ''2024-01-01'', lastIssueNote = js ''first''\<rparr> \<and>
   map_of (aggregate code_unit_platform (rev same_day_ledger)) (js ''H1__X'')
     = Some \<lparr>employee_id = js ''H1'', item_code = js ''X'', qty = Fin 6,
              lastIssueAt = js ''2024-01-01'', lastIssueNote = js ''second''\<rparr> \<and>
   mset (rev decimal_ledger) = mset decimal_ledger \<and>
   map_of (aggregate code_unit_platform decimal_ledger) (js ''H1__X'')
     = Some \<lparr>employee_id = js ''H1'', item_code = js ''X'',
              qty = Fin (5404319552844596 / 9007199254740992),
              lastIssueAt = js ''2024-01-03'', lastIssueNote = js ''c''\<rparr> \<and>
   map_of (aggregate code_unit_platform (rev decimal_ledger)) (js ''H1__X'')
     = Some \<lparr>employee_id = js ''H1'', item_code = js ''X'',
              qty = Fin (5404319552844595 / 9007199254740992),
              lastIssueAt = js ''2024-01-03'', lastIssueNote = js ''c''\<rparr> \<and>
   mset (rev colliding_ledger) = mset colliding_ledger \<and>
   aggregate code_unit_platform colliding_ledger
     = [(js ''A__B__C'', \<lparr>employee_id = js ''A__B'', item_code = js ''C'', qty = Fin 3,
                            lastIssueAt = js ''2024-01-02'', lastIssueNote = js ''b''\<rparr>)] \<and>
   aggregate code_unit_platform (rev colliding_ledger)
     = [(js ''A__B__C'', \<lparr>employee_id = js ''A'', item_code = js ''B__C'', qty = Fin 3,
                            lastIssueAt = js ''2024-01-02'', lastIssueNote = js ''b''\<rparr>)]"
proof (intro conjI)
  show "mset (rev same_day_ledger) = mset same_day_ledger" by simp
  show "mset (rev decimal_ledger) = mset decimal_ledger" by simp
  show "mset (rev colliding_ledger) = mset colliding_ledger" by simp
qed code_simp+

text \<open>
  Claim C4, as amended. Let \<^verbatim>\<open>localeCompare\<close> be a total preorder under which the empty
  string is least. For every transaction list, in whatever order: the \<^verbatim>\<open>lastIssueAt\<close>
  of a key is the \<^verbatim>\<open>created_at\<close> of one of the key's accepted \<^verbatim>\<open>ISSUE\<close> transactions,
  and none of them has a greater \<^verbatim>\<open>created_at\<close> under \<^verbatim>\<open>localeCompare\<close>; it is the
  maximum of these strings in the lexicographic order of code units when
  \<^verbatim>\<open>localeCompare\<close> agrees with that order on them; a key without \<^verbatim>\<open>ISSUE\<close>
  transactions has empty last-issue fields; and removing every \<^verbatim>\<open>RETURN\<close> transaction
  from the list changes neither \<^verbatim>\<open>lastIssueAt\<close> nor \<^verbatim>\<open>lastIssueNote\<close>.
\<close>

theorem last_issue_at_maximal:
  assumes tp: "total_preorder (localeCompare pf)" and le: "least_empty (localeCompare pf)"
    and v: "map_of (aggregate pf txs) k = Some v"
  shows "(key_issues pf k txs \<noteq> [] \<longrightarrow>
            lastIssueAt v \<in> gtx_created_at ` set (key_issues pf k txs) \<and>
            (\<forall>t\<in>set (key_issues pf k txs). localeCompare pf (gtx_created_at t) (lastIssueAt v) \<le> 0) \<and>
            (agrees_with_code_units (localeCompare pf) (gtx_created_at ` set (key_issues pf k txs)) \<longrightarrow>
               lastIssueAt v = Max (gtx_created_at ` set (key_issues pf k txs)))) \<and>
         (key_issues pf k txs = [] \<longrightarrow> lastIssueAt v = [] \<and> lastIssueNote v = []) \<and>
         last_issue pf (filter (\<lambda>t. toUpperCase pf (gtx_action t) \<noteq> js ''RETURN'') txs) k
           = (lastIssueAt v, lastIssueNote v)"
proof -
  have li: "latest_issue (localeCompare pf) (key_issues pf k txs) v"
    using aggregate_latest_issue [OF tp le v] .
  have mem: "lastIssueAt v \<in> gtx_created_at ` set (key_issues pf k txs)"
    and mx: "\<forall>t\<in>set (key_issues pf k txs). localeCompare pf (gtx_created_at t) (lastIssueAt v) \<le> 0"
    if "key_issues pf k txs \<noteq> []"
    using li that by (auto simp: latest_issue_def intro: rev_image_eqI)
  have mxl: "lastIssueAt v = Max (gtx_created_at ` set (key_issues pf k txs))"
    if ne: "key_issues pf k txs \<noteq> []"
      and ag: "agrees_with_code_units (localeCompare pf) (gtx_created_at ` set (key_issues pf k txs))"
  proof (rule Max_eqI [symmetric])
    show "finite (gtx_created_at ` set (key_issues pf k txs))" by simp
    show m: "lastIssueAt v \<in> gtx_created_at ` set (key_issues pf k txs)" using mem [OF ne] .
    show "y \<le> lastIssueAt v" if y: "y \<in> gtx_created_at ` set (key_issues pf k txs)" for y
    proof -
      from y mx [OF ne] have "localeCompare pf y (lastIssueAt v) \<le> 0" by auto
      with ag y m show ?thesis unfolding agrees_with_code_units_def by blast
    qed
  qed
  have empty: "lastIssueAt v = [] \<and> lastIssueNote v = []" if "key_issues pf k txs = []"
    using li that by (simp add: latest_issue_def)
  have "last_issue pf txs k = (lastIssueAt v, lastIssueNote v)"
    using v by (simp add: last_issue_def)
  then have ret: "last_issue pf (filter (\<lambda>t. toUpperCase pf (gtx_action t) \<noteq> js ''RETURN'') txs) k
           = (lastIssueAt v, lastIssueNote v)"
    by (simp add: last_issue_without_returns)
  show ?thesis using mem mx mxl empty ret by blast
qed

text \<open>The permuted example, under the comparison by code units.\<close>

theorem last_issue_at_maximal_witness:
  "total_preorder (localeCompare code_unit_platform) \<and>
   least_empty (localeCompare code_unit_platform) \<and>
   map_of (aggregate code_unit_platform example_ledger_permuted) (js ''H1__X'')
     = Some \<lparr>employee_id = js ''H1'', item_code = js ''X'', qty = Fin 4,
              lastIssueAt = js ''2024-01-10'', lastIssueNote = js ''c''\<rparr> \<and>
   map gtx_created_at (key_issues code_unit_platform (js ''H1__X'') example_ledger_permuted)
     = [js ''2024-01-10'', js ''2024-01-01''] \<and>
   agrees_with_code_units (localeCompare code_unit_platform)
     (gtx_created_at ` set (key_issues code_unit_platform (js ''H1__X'') example_ledger_permuted)) \<and>
   localeCompare code_unit_platform (js ''2024-01-01'') (js ''2024-01-10'') \<le> 0 \<and>
   Max {js ''2024-01-10'', js ''2024-01-01''} = js ''2024-01-10'' \<and>
   last_issue code_unit_platform
      (filter (\<lambda>t. toUpperCase code_unit_platform (gtx_action t) \<noteq> js ''RETURN'') example_ledger_permuted)
      (js ''H1__X'')
     = (js ''2024-01-10'', js ''c'')"
proof -
  let ?pf = code_unit_platform
  let ?k = "js ''H1__X''"
  have tp: "total_preorder (localeCompare ?pf)"
    unfolding localeCompare_code_unit by (rule total_preorder_lex_compare)
  have le: "least_empty (localeCompare ?pf)"
    unfolding localeCompare_code_unit by (rule least_empty_lex_compare)
  have val: "map_of (aggregate ?pf example_ledger_permuted) ?k
     = Some \<lparr>employee_id = js ''H1'', item_code = js ''X'', qty = Fin 4,
              lastIssueAt = js ''2024-01-10'', lastIssueNote = js ''c''\<rparr>"
    by code_simp
  have issues: "key_issues ?pf ?k example_ledger_permuted
     = [general_tx ''H1'' ''X'' ''ISSUE'' (Fin 1) ''c'' ''2024-01-10'',
        general_tx ''H1'' ''X'' ''ISSUE'' (Fin 5) ''a'' ''2024-01-01'']"
    by code_simp
  have created: "gtx_created_at (general_tx ''H1'' ''X'' ''ISSUE'' (Fin 5) ''a'' ''2024-01-01'') = js ''2024-01-01''"
      "gtx_created_at (general_tx ''H1'' ''X'' ''ISSUE'' (Fin 1) ''c'' ''2024-01-10'') = js ''2024-01-10''"
    by (simp_all add: general_tx_def)
  have ag: "agrees_with_code_units (localeCompare ?pf) S" for S
    unfolding localeCompare_code_unit agrees_with_code_units_def lex_compare_le0 by simp
  show ?thesis
    using last_issue_at_maximal [OF tp le val] tp le val ag
    unfolding issues using created by simp
qed

text \<open>
  A counterexample to the claim as stated: a collation that, like the Unicode collation
  of the browsers, ranks the colon before the digits. Of the two \<^verbatim>\<open>ISSUE\<close> timestamps
  \<^verbatim>\<open>2024-01-01T10:00\<close> and \<^verbatim>\<open>2024-01-01T1000\<close> the aggregation keeps the second, and the
  lexicographic maximum is the first.
\<close>

theorem last_issue_at_counterexample:
  "total_preorder (localeCompare ranked_platform) \<and>
   least_empty (localeCompare ranked_platform) \<and>
   map gtx_created_at (key_issues ranked_platform (js ''H1__X'') colon_ledger)
     = [js ''2024-01-01T10:00'', js ''2024-01-01T1000''] \<and>
   map_of (aggregate ranked_platform colon_ledger) (js ''H1__X'')
     = Some \<lparr>employee_id = js ''H1'', item_code = js ''X'', qty = Fin 7,
              lastIssueAt = js ''2024-01-01T1000'', lastIssueNote = js ''b''\<rparr> \<and>
   Max (gtx_created_at ` set (key_issues ranked_platform (js ''H1__X'') colon_ledger))
     = js ''2024-01-01T10:00'' \<and>
   js ''2024-01-01T1000'' < js ''2024-01-01T10:00''"
proof -
  have tp: "total_preorder (localeCompare ranked_platform)"
    unfolding localeCompare_ranked by (rule total_preorder_ranked_compare)
  have le: "least_empty (localeCompare ranked_platform)"
    unfolding localeCompare_ranked by (rule least_empty_ranked_compare)
  have created: "map gtx_created_at (key_issues ranked_platform (js ''H1__X'') colon_ledger)
     = [js ''2024-01-01T10:00'', js ''2024-01-01T1000'']"
    by code_simp
  have val: "map_of (aggregate ranked_platform colon_ledger) (js ''H1__X'')
     = Some \<lparr>employee_id = js ''H1'', item_code = js ''X'', qty = Fin 7,
              lastIssueAt = js ''2024-01-01T1000'', lastIssueNote = js ''b''\<rparr>"
    by code_simp
  have lt: "js ''2024-01-01T1000'' < js ''2024-01-01T10:00''"
    by code_simp
  have "gtx_created_at ` set (key_issues ranked_platform (js ''H1__X'') colon_ledger)
      = set (map gtx_created_at (key_issues ranked_platform (js ''H1__X'') colon_ledger))"
    by simp
  also have "\<dots> = {js ''2024-01-01T10:00'', js ''2024-01-01T1000''}"
    unfolding created by simp
  finally have "Max (gtx_created_at ` set (key_issues ranked_platform (js ''H1__X'') colon_ledger))
      = max (js ''2024-01-01T10:00'') (js ''2024-01-01T1000'')"
    by simp
  also have "\<dots> = js ''2024-01-01T10:00''" using lt by (rule max_absorb1 [OF less_imp_le])
  finally show ?thesis using tp le created val lt by simp
qed

















lemma set_sort_insert: "set (sort_insert cmp x xs) = insert x (set xs)"
  by (induction xs) auto

lemma set_array_sort: "set (array_sort cmp xs) = set xs"
  by (induction xs) (simp_all add: set_sort_insert)






section \<open>Properties of the dashboard KPIs\<close>

lemma toLowerCase_unpaid: "toLowerCase pf (js ''unpaid'') \<noteq> js ''paid''"
  by code_simp

lemma paid_status_lower_is_paid: "(paid_status_lower pf r = js ''paid'') = is_paid pf r"
  by (cases "pr_paid_status r") (simp_all add: paid_status_lower_def is_paid_def toLowerCase_unpaid)

lemma Number_or0_net_pay: "Number_or0 (pr_net_pay r) = net_pay_of r"
  by (simp add: Number_or0_def net_pay_of_def)

lemma reduce_sum:
  "foldl (\<lambda>a r. if Q r then a else dadd a (f r)) a rows = foldl dadd a (map f (filter (\<lambda>r. \<not> Q r) rows))"
  by (induction rows arbitrary: a) simp_all

lemma payrollPaid_sum: "payrollPaid pf rows = dsum (map net_pay_of (filter (is_paid pf) rows))"
  unfolding payrollPaid_def Number_or0_net_pay reduce_sum dsum_def
  by (simp add: paid_status_lower_is_paid)

lemma payrollDue_sum: "payrollDue pf rows = dsum (map net_pay_of (filter (\<lambda>r. \<not> is_paid pf r) rows))"
  unfolding payrollDue_def Number_or0_net_pay reduce_sum dsum_def
  by (simp add: paid_status_lower_is_paid)

lemma isFinite_Fin: "isFinite x \<Longrightarrow> Fin (finite_value x) = x"
  by (cases x) (simp_all add: finite_value_def)

lemma dsum_exact:
  assumes "exact_numbers xs"
  shows "dsum xs = Fin (sum_list (map finite_value xs))"
    and "of_int \<lfloor>sum_list (map finite_value xs)\<rfloor> = sum_list (map finite_value xs)"
proof -
  from assms have f: "list_all isFinite xs" and e: "exact_amounts (map finite_value xs)"
    by (simp_all add: exact_numbers_def)
  from f have "map Fin (map finite_value xs) = xs"
    by (induction xs) (simp_all add: isFinite_Fin)
  then have "dsum xs = foldl dadd (Fin 0) (map Fin (map finite_value xs))"
    by (simp add: dsum_def)
  also have "\<dots> = foldl (\<lambda>a x. dadd a (Fin x)) (Fin 0) (map finite_value xs)"
    by (simp only: foldl_map)
  finally show "dsum xs = Fin (sum_list (map finite_value xs))"
    using exact_sum [OF e] by simp
  show "of_int \<lfloor>sum_list (map finite_value xs)\<rfloor> = sum_list (map finite_value xs)"
    using exact_sum [OF e] by simp
qed

lemma sum_abs_filter:
  "sum_list (map abs (map f (filter P rows))) \<le> sum_list (map abs (map f rows :: rat list))"
proof (induction rows)
  case Nil
  show ?case by simp
next
  case (Cons r rows)
  have n: "0 \<le> \<bar>f r\<bar>" by simp
  show ?case
  proof (cases "P r")
    case True
    then show ?thesis using Cons by simp
  next
    case False
    have "sum_list (map abs (map f (filter P rows))) \<le> \<bar>f r\<bar> + sum_list (map abs (map f rows))"
      using Cons n by linarith
    then show ?thesis using False by simp
  qed
qed

lemma exact_numbers_filter:
  assumes "exact_numbers (map f rows)"
  shows "exact_numbers (map f (filter P rows))"
proof -
  from assms have a: "list_all isFinite (map f rows)"
    and i: "list_all (\<lambda>q. of_int \<lfloor>q\<rfloor> = q) (map finite_value (map f rows))"
    and s: "sum_list (map abs (map finite_value (map f rows))) \<le> 9007199254740992"
    by (simp_all add: exact_numbers_def exact_amounts_def)
  have a': "list_all isFinite (map f (filter P rows))"
    using a by (simp add: list_all_iff)
  have i': "list_all (\<lambda>q. of_int \<lfloor>q\<rfloor> = q) (map finite_value (map f (filter P rows)))"
    using i by (simp add: list_all_iff del: of_int_floor_cancel)
  have "sum_list (map abs (map finite_value (map f (filter P rows))))
      \<le> sum_list (map abs (map finite_value (map f rows)))"
    using sum_abs_filter [of "finite_value \<circ> f" P rows] by simp
  with s have s': "sum_list (map abs (map finite_value (map f (filter P rows)))) \<le> 9007199254740992"
    by linarith
  show ?thesis unfolding exact_numbers_def exact_amounts_def using a' i' s' by blast
qed

lemma sum_list_partition:
  "sum_list (map f (filter P rows)) + sum_list (map f (filter (\<lambda>r. \<not> P r) rows))
     = sum_list (map f rows :: rat list)"
  by (induction rows) simp_all

text \<open>
  Claim C10, as amended. For every payroll report, \<^verbatim>\<open>payrollPaid\<close> is the sum of the net
  pay (0 when absent) of the rows whose \<^verbatim>\<open>paid_status\<close>, lower-cased, is \<^verbatim>\<open>paid\<close>, and
  \<^verbatim>\<open>payrollDue\<close> is the sum over all other rows (a row without \<^verbatim>\<open>paid_status\<close> is among
  them); both sums are taken in doubles, from 0, in the order of the rows. When the net
  pays are integers whose magnitudes add up to at most \<open>2 ^ 53\<close>, the two add up to the
  sum of the net pay over all rows, and that sum is exact.
\<close>

theorem kpis_payroll_partition:
  "payrollPaid pf (payrollRows rep) = dsum (map net_pay_of (filter (is_paid pf) (payrollRows rep))) \<and>
   payrollDue pf (payrollRows rep) = dsum (map net_pay_of (filter (\<lambda>r. \<not> is_paid pf r) (payrollRows rep))) \<and>
   (exact_numbers (map net_pay_of (payrollRows rep)) \<longrightarrow>
      dadd (payrollPaid pf (payrollRows rep)) (payrollDue pf (payrollRows rep))
        = dsum (map net_pay_of (payrollRows rep)) \<and>
      dsum (map net_pay_of (payrollRows rep))
        = Fin (sum_list (map finite_value (map net_pay_of (payrollRows rep)))))"
proof (intro conjI impI)
  let ?rows = "payrollRows rep"
  show "payrollPaid pf ?rows = dsum (map net_pay_of (filter (is_paid pf) ?rows))"
    by (rule payrollPaid_sum)
  show "payrollDue pf ?rows = dsum (map net_pay_of (filter (\<lambda>r. \<not> is_paid pf r) ?rows))"
    by (rule payrollDue_sum)
  assume ex: "exact_numbers (map net_pay_of ?rows)"
  let ?p = "sum_list (map finite_value (map net_pay_of (filter (is_paid pf) ?rows)))"
  let ?d = "sum_list (map finite_value (map net_pay_of (filter (\<lambda>r. \<not> is_paid pf r) ?rows)))"
  let ?a = "sum_list (map finite_value (map net_pay_of ?rows))"
  have p: "payrollPaid pf ?rows = Fin ?p"
    unfolding payrollPaid_sum using dsum_exact(1) [OF exact_numbers_filter [OF ex]] .
  have d: "payrollDue pf ?rows = Fin ?d"
    unfolding payrollDue_sum using dsum_exact(1) [OF exact_numbers_filter [OF ex]] .
  show a: "dsum (map net_pay_of ?rows) = Fin ?a" using dsum_exact(1) [OF ex] .
  have i: "of_int \<lfloor>?a\<rfloor> = ?a" using dsum_exact(2) [OF ex] .
  have "\<bar>?a\<bar> \<le> sum_list (map abs (map finite_value (map net_pay_of ?rows)))" by (rule abs_sum_list)
  also have "\<dots> \<le> 9007199254740992" using ex by (simp add: exact_numbers_def exact_amounts_def)
  finally have b: "\<bar>?a\<bar> \<le> 9007199254740992" .
  have "?p + ?d = ?a"
    using sum_list_partition [of "finite_value \<circ> net_pay_of" "is_paid pf" ?rows] by simp
  then have "dadd (Fin ?p) (Fin ?d) = round_double ?a" by simp
  also have "\<dots> = Fin ?a" using round_double_integer [OF i b] .
  finally show "dadd (payrollPaid pf ?rows) (payrollDue pf ?rows) = dsum (map net_pay_of ?rows)"
    unfolding p d a .
qed

text \<open>
  A report with whole amounts; the paid flags are spelled \<^verbatim>\<open>Paid\<close>, absent, \<^verbatim>\<open>unpaid\<close>
  and \<^verbatim>\<open>PAID\<close>, and one net pay is absent.
\<close>

theorem kpis_payroll_partition_witness:
  "exact_numbers (map net_pay_of (payrollRows example_payroll)) \<and>
   payrollPaid code_unit_platform (payrollRows example_payroll) = Fin 107 \<and>
   payrollDue code_unit_platform (payrollRows example_payroll) = Fin 40 \<and>
   dadd (payrollPaid code_unit_platform (payrollRows example_payroll))
        (payrollDue code_unit_platform (payrollRows example_payroll)) = Fin 147 \<and>
   dsum (map net_pay_of (payrollRows example_payroll)) = Fin 147"
proof -
  have ex: "exact_numbers (map net_pay_of (payrollRows example_payroll))" by code_simp
  have paid: "payrollPaid code_unit_platform (payrollRows example_payroll) = Fin 107" by code_simp
  have due: "payrollDue code_unit_platform (payrollRows example_payroll) = Fin 40" by code_simp
  have s: "sum_list (map finite_value (map net_pay_of (payrollRows example_payroll))) = 147" by code_simp
  note th = kpis_payroll_partition [of code_unit_platform example_payroll]
  from th ex have 1: "dadd (payrollPaid code_unit_platform (payrollRows example_payroll))
        (payrollDue code_unit_platform (payrollRows example_payroll))
      = dsum (map net_pay_of (payrollRows example_payroll))"
    by blast
  from th ex have 2: "dsum (map net_pay_of (payrollRows example_payroll))
      = Fin (sum_list (map finite_value (map net_pay_of (payrollRows example_payroll))))"
    by blast
  show ?thesis using ex paid due 1 2 unfolding s by simp
qed

text \<open>
  A counterexample to the claim as stated: the net pays 35000.10 (paid), 42500.25 and
  26709.20 (unpaid). \<^verbatim>\<open>payrollPaid + payrollDue\<close> is the double 104209.54999999999;
  the sum of the net pay over all rows is 104209.55, as a sum of doubles in the order of
  the rows and as the double nearest to the exact sum.
\<close>

theorem kpis_payroll_counterexample:
  "payrollPaid code_unit_platform (payrollRows decimal_payroll) = Fin (4810377115415347 / 137438953472) \<and>
   payrollDue code_unit_platform (payrollRows decimal_payroll) = Fin (4756037189186355 / 68719476736) \<and>
   dadd (payrollPaid code_unit_platform (payrollRows decimal_payroll))
        (payrollDue code_unit_platform (payrollRows decimal_payroll))
     = Fin (1790306436723507 / 17179869184) \<and>
   dsum (map net_pay_of (payrollRows decimal_payroll)) = Fin (7161225746894029 / 68719476736) \<and>
   json_number (3500010 / 100 + 4250025 / 100 + 2670920 / 100) = Fin (7161225746894029 / 68719476736)"
  by (intro conjI) code_simp+

section \<open>Properties of \<^verbatim>\<open>byEmployee\<close>\<close>







lemma g_employee_id_holder_group:
  "g_employee_id (holder_group pf parse emps issued rows rtxs start endd eid) = eid"
  by (simp add: holder_group_def Let_def)




lemma byEmployee_eq:
  "byEmployee pf parse emps issued rows rtxs search start endd =
     array_sort (holder_compare pf)
       (filter (kept pf (toLowerCase pf (trim search)) start endd)
          (map (holder_group pf parse emps issued rows rtxs start endd) (allEmployeeIds emps issued rows)))"
  unfolding byEmployee_def Let_def kept_def
  by (rule arg_cong [where f = "array_sort (holder_compare pf)"]) (auto intro: filter_cong)

lemma holder_in_byEmployee:
  "(eid \<in> g_employee_id ` set (byEmployee pf parse emps issued rows rtxs search start endd)) =
     (eid \<in> set (allEmployeeIds emps issued rows) \<and>
      kept pf (toLowerCase pf (trim search)) start endd (holder_group pf parse emps issued rows rtxs start endd eid))"
  unfolding byEmployee_eq set_array_sort
  by (auto simp: g_employee_id_holder_group image_iff)

lemma search_matches_empty: "search_matches pf [] g"
  by (simp add: search_matches_def)

lemma toLowerCase_empty: "toLowerCase pf [] = []"
  by (simp add: toLowerCase_def is_ascii_def)



text \<open>
  Claim C7, as amended. A holder whose total item count after the window filter is zero
  appears in the merged output exactly when no window bound is set and the holder passes
  the search filter (which every holder does when the query is empty). So with a window
  bound set every such holder is pruned, and without one it is the search filter alone
  that can remove it.
\<close>

theorem zero_item_holder_pruning:
  assumes "eid \<in> set (allEmployeeIds emps issued rows)"
    and "g_totalCount (holder_group pf parse emps issued rows rtxs start endd eid) = 0"
  shows "(eid \<in> g_employee_id ` set (byEmployee pf parse emps issued rows rtxs search start endd)) =
           (start = None \<and> endd = None \<and>
            search_matches pf (toLowerCase pf (trim search)) (holder_group pf parse emps issued rows rtxs start endd eid))"
  using assms unfolding holder_in_byEmployee kept_def by simp

theorem zero_item_holder_pruning_witness:
  "js ''12'' \<in> set (allEmployeeIds [employee 1 (Some ''12'') None ''Bob''] [] []) \<and>
   g_totalCount (holder_group code_unit_platform iso_day [employee 1 (Some ''12'') None ''Bob''] [] [] []
                   None None (js ''12'')) = 0 \<and>
   js ''12'' \<in> g_employee_id ` set (byEmployee code_unit_platform iso_day [employee 1 (Some ''12'') None ''Bob'']
                                       [] [] [] [] None None) \<and>
   g_totalCount (holder_group code_unit_platform iso_day [employee 1 (Some ''12'') None ''Bob''] [] [] []
                   (Some 20240101) None (js ''12'')) = 0 \<and>
   js ''12'' \<notin> g_employee_id ` set (byEmployee code_unit_platform iso_day [employee 1 (Some ''12'') None ''Bob'']
                                       [] [] [] [] (Some 20240101) None)"
proof -
  have m: "js ''12'' \<in> set (allEmployeeIds [employee 1 (Some ''12'') None ''Bob''] [] [])"
    by code_simp
  have z: "g_totalCount (holder_group code_unit_platform iso_day [employee 1 (Some ''12'') None ''Bob''] [] [] []
                   None None (js ''12'')) = 0"
    by code_simp
  have z': "g_totalCount (holder_group code_unit_platform iso_day [employee 1 (Some ''12'') None ''Bob''] [] [] []
                   (Some 20240101) None (js ''12'')) = 0"
    by code_simp
  have q: "toLowerCase code_unit_platform (trim []) = []" by (simp add: trim_def toLowerCase_empty)
  show ?thesis
    using zero_item_holder_pruning [OF m z, of "[]"] zero_item_holder_pruning [OF m z', of "[]"] m z z'
    unfolding q by (simp add: search_matches_empty)
qed

text \<open>
  A holder without items, no window, and a query that matches nothing of the holder: the
  holder is not in the output although no window is active.
\<close>

theorem zero_item_holder_counterexample:
  "js ''12'' \<in> set (allEmployeeIds [employee 1 (Some ''12'') None ''Bob''] [] []) \<and>
   g_totalCount (holder_group code_unit_platform iso_day [employee 1 (Some ''12'') None ''Bob''] [] [] []
                   None None (js ''12'')) = 0 \<and>
   byEmployee code_unit_platform iso_day [employee 1 (Some ''12'') None ''Bob''] [] [] [] (js ''zzz'') None None = []"
  by (intro conjI; code_simp)

lemma num_le_total: "\<not> isNaN a \<Longrightarrow> \<not> isNaN b \<Longrightarrow> \<not> num_le a b \<Longrightarrow> num_le b a"
  by (cases a; cases b; simp)

lemma num_le_trans: "num_le a b \<Longrightarrow> num_le b c \<Longrightarrow> num_le a c"
  by (cases a; cases b; cases c; simp)

lemma holder_compare_le0: "(holder_compare pf a b \<le> 0) = holder_order pf a b"
proof (cases "\<not> isNaN (parseInt (g_serial_no a)) \<and> \<not> isNaN (parseInt (g_serial_no b))")
  case True
  then have "integral (parseInt (g_serial_no a))" "integral (parseInt (g_serial_no b))"
    using integral_parseInt by blast+
  then show ?thesis using True
    by (simp add: holder_compare_def holder_order_def Let_def comparator_sign_dsub)
next
  case False
  then show ?thesis by (auto simp: holder_compare_def holder_order_def Let_def)
qed

lemma holder_order_total:
  "total_preorder (localeCompare pf) \<Longrightarrow> \<not> holder_order pf a b \<Longrightarrow> holder_order pf b a"
  unfolding total_preorder_def holder_order_def
  by (auto simp: not_le dest: num_le_total split: if_splits)

lemma holder_order_trans:
  "total_preorder (localeCompare pf) \<Longrightarrow> holder_order pf a b \<Longrightarrow> holder_order pf b c \<Longrightarrow> holder_order pf a c"
  unfolding total_preorder_def holder_order_def
  by (auto dest: num_le_trans split: if_splits)

lemma sorted_sort_insert:
  assumes total: "\<And>a b. \<not> cmp a b \<le> 0 \<Longrightarrow> cmp b a \<le> 0"
    and trans: "\<And>a b c. cmp a b \<le> 0 \<Longrightarrow> cmp b c \<le> 0 \<Longrightarrow> cmp a c \<le> 0"
  shows "sorted_wrt (\<lambda>a b. cmp a b \<le> 0) xs \<Longrightarrow> sorted_wrt (\<lambda>a b. cmp a b \<le> 0) (sort_insert cmp x xs)"
proof (induction xs)
  case Nil
  show ?case by simp
next
  case (Cons y ys)
  show ?case
  proof (cases "cmp x y \<le> 0")
    case True
    then have "\<forall>z\<in>set ys. cmp x z \<le> 0" using Cons.prems trans by auto
    with True Cons.prems show ?thesis by simp
  next
    case False
    then have "cmp y x \<le> 0" by (rule total)
    with False Cons show ?thesis by (auto simp: set_sort_insert)
  qed
qed

lemma sorted_array_sort:
  assumes "\<And>a b. \<not> cmp a b \<le> 0 \<Longrightarrow> cmp b a \<le> 0"
    and "\<And>a b c. cmp a b \<le> 0 \<Longrightarrow> cmp b c \<le> 0 \<Longrightarrow> cmp a c \<le> 0"
  shows "sorted_wrt (\<lambda>a b. cmp a b \<le> 0) (array_sort cmp xs)"
  by (induction xs) (simp_all add: sorted_sort_insert [OF assms])

lemma parseInt_exact:
  "parse_integer s = Some n \<Longrightarrow> \<bar>n\<bar> \<le> 9007199254740992 \<Longrightarrow> parseInt s = Fin (of_int n)"
  by (simp add: parseInt_def round_double_int)

text \<open>
  Claim C9, as amended. When \<^verbatim>\<open>localeCompare\<close> is a total preorder, the merged output is
  sorted by \<open>holder_order\<close>: of two holders whose serial numbers parse, the one listed
  first has the smaller or the same number, the number being the double that
  \<^verbatim>\<open>parseInt\<close> returns; a holder whose serial number parses is never listed after one
  whose serial number does not; and when neither parses, the display names are in the
  order of \<^verbatim>\<open>localeCompare\<close>, which the code calls without options. The double is the
  integer itself when its magnitude is at most \<open>2 ^ 53\<close>.
\<close>

theorem holders_sorted:
  assumes "total_preorder (localeCompare pf)"
  shows "sorted_wrt (holder_order pf) (byEmployee pf parse emps issued rows rtxs search start endd) \<and>
         (parse_integer s = Some n \<and> \<bar>n\<bar> \<le> 9007199254740992 \<longrightarrow> parseInt s = Fin (of_int n))"
proof
  have "sorted_wrt (\<lambda>a b. holder_compare pf a b \<le> 0)
          (byEmployee pf parse emps issued rows rtxs search start endd)"
    unfolding byEmployee_eq
  proof (rule sorted_array_sort)
    show "\<not> holder_compare pf a b \<le> 0 \<Longrightarrow> holder_compare pf b a \<le> 0" for a b
      unfolding holder_compare_le0 by (rule holder_order_total [OF assms])
    show "holder_compare pf a b \<le> 0 \<Longrightarrow> holder_compare pf b c \<le> 0 \<Longrightarrow> holder_compare pf a c \<le> 0" for a b c
      unfolding holder_compare_le0 by (rule holder_order_trans [OF assms])
  qed
  then show "sorted_wrt (holder_order pf) (byEmployee pf parse emps issued rows rtxs search start endd)"
    by (simp add: holder_compare_le0)
  show "parse_integer s = Some n \<and> \<bar>n\<bar> \<le> 9007199254740992 \<longrightarrow> parseInt s = Fin (of_int n)"
    using parseInt_exact by blast
qed

text \<open>
  Four employees with the serial numbers 10, 2, none and \<^verbatim>\<open>n/a\<close>, under the example
  collation that ranks letters without regard to case: the numeric serial numbers come
  first, in ascending order, then the names Alice and bob.
\<close>

theorem holders_sorted_witness:
  "total_preorder (localeCompare ranked_platform) \<and>
   map g_employee_id (byEmployee ranked_platform iso_day example_employees [] [] [] [] None None)
     = [js ''F2'', js ''F10'', js ''FA'', js ''FB''] \<and>
   sorted_wrt (holder_order ranked_platform)
     (byEmployee ranked_platform iso_day example_employees [] [] [] [] None None) \<and>
   parse_integer (js ''10'') = Some 10 \<and>
   parseInt (js ''10'') = Fin 10"
proof -
  have tp: "total_preorder (localeCompare ranked_platform)"
    unfolding localeCompare_ranked by (rule total_preorder_ranked_compare)
  have ids: "map g_employee_id (byEmployee ranked_platform iso_day example_employees [] [] [] [] None None)
     = [js ''F2'', js ''F10'', js ''FA'', js ''FB'']"
    by code_simp
  have p: "parse_integer (js ''10'') = Some 10" by code_simp
  note th = holders_sorted [OF tp, of iso_day example_employees "[]" "[]" "[]" "[]" None None "js ''10''" 10]
  from th p have "parseInt (js ''10'') = Fin 10" by simp
  with th tp ids p show ?thesis by blast
qed

text \<open>
  Two counterexamples to the claim as stated. The serial numbers 9007199254740993 and
  9007199254740992 parse to the same double, so the two holders stay in the order of
  the employee list, the greater integer first. And under a collation that, like the
  Unicode collation of the browsers, puts the lower-case spelling of a name before the
  capitalised one, \<^verbatim>\<open>bob\<close> is listed before \<^verbatim>\<open>Bob\<close> although \<^verbatim>\<open>Bob\<close> comes first in the
  employee list: the comparison of the names is not case-insensitive.
\<close>

theorem holders_sorted_counterexample:
  "parse_integer (js ''9007199254740993'') = Some 9007199254740993 \<and>
   parseInt (js ''9007199254740993'') = Fin 9007199254740992 \<and>
   parseInt (js ''9007199254740992'') = Fin 9007199254740992 \<and>
   map g_serial_no (byEmployee code_unit_platform iso_day long_serial_employees [] [] [] [] None None)
     = [js ''9007199254740993'', js ''9007199254740992''] \<and>
   map g_employee_name (byEmployee ranked_platform iso_day same_name_employees [] [] [] [] None None)
     = [js ''bob'', js ''Bob'']"
  by (intro conjI; code_simp)

section \<open>Properties of the time window\<close>

lemma inRange_unreadable:
  "parse [] = None \<Longrightarrow> unreadable parse ts \<Longrightarrow> inRange parse start endd (Some ts)"
  by (auto simp: inRange_def unreadable_def String_or_empty_def)

lemma inRange_no_window: "inRange parse None None ts"
  by (simp add: inRange_def)

lemma generalMap_snoc:
  "generalMap (rows @ [r]) =
     map_set (gar_employee_id r)
       ((case map_get (generalMap rows) (gar_employee_id r) of Some prev \<Rightarrow> prev | None \<Rightarrow> []) @ [r])
       (generalMap rows)"
  by (simp add: generalMap_def)

lemma generalMap_get:
  "map_get (generalMap rows) eid =
     (if filter (\<lambda>r. gar_employee_id r = eid) rows = [] then None
      else Some (filter (\<lambda>r. gar_employee_id r = eid) rows))"
proof (induction rows rule: rev_induct)
  case Nil
  show ?case by (simp add: generalMap_def map_get_def)
next
  case (snoc r rows)
  then show ?case
    by (auto simp: generalMap_snoc map_get_def map_of_map_set)
qed

lemma general_eq:
  "general parse rows start endd eid =
     filter (\<lambda>r. inRange parse start endd (Some (gar_created_at r)))
       (filter (\<lambda>r. gar_employee_id r = eid) rows)"
proof (cases "filter (\<lambda>r. gar_employee_id r = eid) rows = []")
  case True
  then show ?thesis by (simp add: general_def generalMap_get)
next
  case False
  then show ?thesis by (simp add: general_def generalMap_get)
qed

lemma inRange_String_or_empty:
  "inRange parse start endd (Some (String_or_empty ts)) = inRange parse start endd ts"
  by (simp add: inRange_def String_or_empty_def)

lemma qty_items_member:
  "(it \<in> set (qty_items pf parse issued rtxs start endd eid)) =
     (it \<in> set (ri_quantity_items (restrictedBase issued eid)) \<and>
      (start = None \<and> endd = None \<or>
       qty_last_issue pf rtxs eid it \<noteq> [] \<and>
       inRange parse start endd (Some (qty_last_issue pf rtxs eid it))))"
  unfolding qty_items_def qty_last_issue_def Let_def inRange_String_or_empty
  by auto

text \<open>
  Claim C2, as amended. With \<^verbatim>\<open>dayjs("")\<close> invalid, for every date window, bounded or
  unbounded on either side: a serialized unit and a general allocation whose date is
  empty or unparseable are visible; a restricted quantity item is visible when no window
  is set, and under a window when its recorded last issue is non-empty and unparseable;
  under a window, a restricted quantity item with no recorded last issue (or an empty
  one) is excluded.
\<close>

theorem fail_open_window:
  assumes "parse [] = None"
  shows "(s \<in> set (ri_serial_items (restrictedBase issued eid)) \<and>
          unreadable parse (serial_created_at pf rtxs s) \<longrightarrow>
            s\<lparr>sr_created_at := serial_created_at pf rtxs s\<rparr>
              \<in> set (serial_items pf parse issued rtxs start endd eid)) \<and>
         (r \<in> set rows \<and> unreadable parse (gar_created_at r) \<longrightarrow>
            r \<in> set (general parse rows start endd (gar_employee_id r))) \<and>
         (it \<in> set (ri_quantity_items (restrictedBase issued eid)) \<and>
          (start = None \<and> endd = None \<or>
           qty_last_issue pf rtxs eid it \<noteq> [] \<and> parse (qty_last_issue pf rtxs eid it) = None) \<longrightarrow>
            it \<in> set (qty_items pf parse issued rtxs start endd eid)) \<and>
         (\<not> (start = None \<and> endd = None) \<and> qty_last_issue pf rtxs eid it = [] \<longrightarrow>
            it \<notin> set (qty_items pf parse issued rtxs start endd eid))"
proof (intro conjI impI)
  assume "s \<in> set (ri_serial_items (restrictedBase issued eid)) \<and>
          unreadable parse (serial_created_at pf rtxs s)"
  then show "s\<lparr>sr_created_at := serial_created_at pf rtxs s\<rparr>
              \<in> set (serial_items pf parse issued rtxs start endd eid)"
    using inRange_unreadable [where parse = parse, OF assms] by (auto simp: serial_items_def)
next
  assume "r \<in> set rows \<and> unreadable parse (gar_created_at r)"
  then show "r \<in> set (general parse rows start endd (gar_employee_id r))"
    using inRange_unreadable [where parse = parse, OF assms] by (simp add: general_eq)
next
  assume "it \<in> set (ri_quantity_items (restrictedBase issued eid)) \<and>
          (start = None \<and> endd = None \<or>
           qty_last_issue pf rtxs eid it \<noteq> [] \<and> parse (qty_last_issue pf rtxs eid it) = None)"
  then show "it \<in> set (qty_items pf parse issued rtxs start endd eid)"
    using inRange_unreadable [where parse = parse, OF assms, of "qty_last_issue pf rtxs eid it" start endd]
    by (auto simp: qty_items_member unreadable_def)
next
  assume "\<not> (start = None \<and> endd = None) \<and> qty_last_issue pf rtxs eid it = []"
  then show "it \<notin> set (qty_items pf parse issued rtxs start endd eid)"
    by (simp add: qty_items_member)
qed

theorem fail_open_window_witness:
  "iso_day [] = None \<and>
   rifle_item \<in> set (ri_serial_items (restrictedBase
      [\<lparr>ri_employee_id = js ''E1'', ri_serial_items = [rifle_item], ri_quantity_items = [ammo_item]\<rparr>] (js ''E1''))) \<and>
   unreadable iso_day (serial_created_at code_unit_platform [ammo_issue_tx] rifle_item) \<and>
   rifle_item\<lparr>sr_created_at := serial_created_at code_unit_platform [ammo_issue_tx] rifle_item\<rparr>
     \<in> set (serial_items code_unit_platform iso_day
          [\<lparr>ri_employee_id = js ''E1'', ri_serial_items = [rifle_item], ri_quantity_items = [ammo_item]\<rparr>]
          [ammo_issue_tx] (Some 20240101) (Some 20240131) (js ''E1'')) \<and>
   unreadable iso_day (gar_created_at (general_row ''E1'' ''X'' (Fin 3) ''last week'')) \<and>
   general_row ''E1'' ''X'' (Fin 3) ''last week''
     \<in> set (general iso_day [general_row ''E1'' ''X'' (Fin 3) ''last week''] (Some 20240101) (Some 20240131) (js ''E1'')) \<and>
   qty_last_issue code_unit_platform [ammo_issue_tx] (js ''E1'') ammo_item = js ''yesterday'' \<and>
   iso_day (js ''yesterday'') = None \<and>
   ammo_item \<in> set (qty_items code_unit_platform iso_day
          [\<lparr>ri_employee_id = js ''E1'', ri_serial_items = [rifle_item], ri_quantity_items = [ammo_item]\<rparr>]
          [ammo_issue_tx] (Some 20240101) (Some 20240131) (js ''E1'')) \<and>
   qty_last_issue code_unit_platform [] (js ''E1'') ammo_item = [] \<and>
   ammo_item \<notin> set (qty_items code_unit_platform iso_day
          [\<lparr>ri_employee_id = js ''E1'', ri_serial_items = [rifle_item], ri_quantity_items = [ammo_item]\<rparr>]
          [] (Some 20240101) (Some 20240131) (js ''E1''))"
proof -
  let ?issued = "[\<lparr>ri_employee_id = js ''E1'', ri_serial_items = [rifle_item], ri_quantity_items = [ammo_item]\<rparr>]"
  let ?pf = code_unit_platform
  have p: "iso_day [] = None" by (simp add: iso_day_def)
  have s: "rifle_item \<in> set (ri_serial_items (restrictedBase ?issued (js ''E1'')))"
    by code_simp
  have q: "ammo_item \<in> set (ri_quantity_items (restrictedBase ?issued (js ''E1'')))"
    by code_simp
  have u: "unreadable iso_day (serial_created_at ?pf [ammo_issue_tx] rifle_item)" by code_simp
  have v: "unreadable iso_day (gar_created_at (general_row ''E1'' ''X'' (Fin 3) ''last week''))" by code_simp
  have e: "gar_employee_id (general_row ''E1'' ''X'' (Fin 3) ''last week'') = js ''E1''" by (simp add: general_row_def)
  have l: "qty_last_issue ?pf [ammo_issue_tx] (js ''E1'') ammo_item = js ''yesterday''" by code_simp
  have l0: "qty_last_issue ?pf [] (js ''E1'') ammo_item = []" by code_simp
  have y: "iso_day (js ''yesterday'') = None" by code_simp
  have ne: "js ''yesterday'' \<noteq> []" by (simp add: js_def)
  show ?thesis
    using fail_open_window [where parse = iso_day, OF p, of rifle_item ?issued
        "js ''E1''" ?pf "[ammo_issue_tx]" "Some 20240101" "Some 20240131"
        "general_row ''E1'' ''X'' (Fin 3) ''last week''" "[general_row ''E1'' ''X'' (Fin 3) ''last week'']" ammo_item]
      fail_open_window [where parse = iso_day, OF p, of rifle_item ?issued
        "js ''E1''" ?pf "[]" "Some 20240101" "Some 20240131"
        "general_row ''E1'' ''X'' (Fin 3) ''last week''" "[general_row ''E1'' ''X'' (Fin 3) ''last week'']" ammo_item]
      p s q u v l l0 y ne
    unfolding e by simp
qed

text \<open>
  A restricted quantity item of holder \<^verbatim>\<open>E1\<close> with no \<^verbatim>\<open>ISSUE\<close> transaction on
  record, under a window with a start bound only: the item is filtered out, and the
  holder with it.
\<close>

theorem fail_open_window_counterexample:
  "ri_quantity_items (restrictedBase
      [\<lparr>ri_employee_id = js ''E1'', ri_serial_items = [], ri_quantity_items = [ammo_item]\<rparr>] (js ''E1'')) = [ammo_item] \<and>
   qty_last_issue code_unit_platform [] (js ''E1'') ammo_item = [] \<and>
   qty_items code_unit_platform iso_day
      [\<lparr>ri_employee_id = js ''E1'', ri_serial_items = [], ri_quantity_items = [ammo_item]\<rparr>]
      [] (Some 20240101) None (js ''E1'') = [] \<and>
   byEmployee code_unit_platform iso_day []
      [\<lparr>ri_employee_id = js ''E1'', ri_serial_items = [], ri_quantity_items = [ammo_item]\<rparr>]
      [] [] [] (Some 20240101) None = []"
  by (intro conjI; code_simp)

section \<open>Properties of a failed \<^verbatim>\<open>load\<close>\<close>

text \<open>
  Claim C3, evaluated on the code. A load whose fetch fails with the error
  \<^verbatim>\<open>Network Error\<close>, started in the state left by an earlier successful load: the
  employee list, the restricted issued inventory and the general allocation rows are
  reset to empty and one notification is raised, but the restricted transaction list is
  left as it was (the \<^verbatim>\<open>catch\<close> block has no \<^verbatim>\<open>setRestrictedTx([])\<close>).
\<close>

theorem load_failure_keeps_restrictedTx:
  "restrictedTx (load code_unit_platform (Inl (Error (js ''Network Error''))) stale_state) = [restricted_issue_tx] \<and>
   employees (load code_unit_platform (Inl (Error (js ''Network Error''))) stale_state) = [] \<and>
   restrictedIssued (load code_unit_platform (Inl (Error (js ''Network Error''))) stale_state) = [] \<and>
   generalRows (load code_unit_platform (Inl (Error (js ''Network Error''))) stale_state) = [] \<and>
   notifications (load code_unit_platform (Inl (Error (js ''Network Error''))) stale_state) = [js ''Network Error'']"
  by (simp add: load_def stale_state_def errorMessage_def)

end
